theory Spec2Isabelle
  imports Main
begin

section \<open>The relational store of schema.sql\<close>

text \<open>
  The tables of schema.sql, each a list of rows in the order the server holds them.
  Identifiers and quantities are INT columns, modelled as unbounded integers; DECIMAL
  columns are held as an integer number of hundredths. Only the columns some modelled
  statement reads or writes are kept.
\<close>

type_synonym decimal = int

datatype json =
    JNull
  | JBool bool
  | JNum int
  | JStr string
  | JArr "json list"
  | JObj "(string \<times> json) list"

text \<open>
  What the driver hands back for a JSON column: the text as stored, or an object it has
  parsed already. Both readers of the order history test \<open>typeof ... === 'string'\<close>.
\<close>

datatype column = Text string | Object json

record user_row =
  u_id :: int
  u_username :: string
  u_email :: string

record product =
  p_id :: int
  p_name :: string
  p_image_id :: "string option"
  stock_quantity :: int

record cart_item =
  ci_id :: int
  ci_user_id :: int
  ci_product_id :: int
  ci_quantity :: int

record order_row =
  o_id :: int
  o_user_id :: int
  o_total_amount :: decimal
  o_shipping_address :: column
  o_status :: string
  o_order_date :: int

record order_item =
  oi_id :: int
  oi_order_id :: int
  oi_product_id :: int
  oi_quantity :: int
  oi_price :: decimal

record tables =
  users :: "user_row list"
  products :: "product list"
  cart_items :: "cart_item list"
  orders :: "order_row list"
  order_items :: "order_item list"

section \<open>The driver: pool, connection, transaction\<close>

text \<open>
  A rejected promise or a thrown \<open>Error\<close>, with its \<open>message\<close>. \<open>DbError\<close> is what
  the driver rejects with, \<open>AppError\<close> what the repository's own code throws with
  \<open>new Error(...)\<close>.
\<close>

datatype js_error = DbError string | AppError string

fun message :: "js_error \<Rightarrow> string" where
  "message (DbError m) = m"
| "message (AppError m) = m"

text \<open>
  \<open>db\<close> is the pool, whose statements commit on their own; \<open>connection\<close> is the one
  connection \<open>createOrder\<close> takes from it to run its transaction on.
\<close>

datatype handle = Pool | Connection

text \<open>
  \<open>committed\<close> is what the pool (and every other client) sees; \<open>working\<close> is what the
  transaction's connection sees: the committed rows and its own uncommitted writes. The
  AUTO_INCREMENT counters are outside the transaction (InnoDB does not roll them back).
  \<open>faults\<close> is the schedule of the server's refusals, one entry per call to the driver in
  the order the calls are made: \<open>None\<close> lets the call through, \<open>Some m\<close> rejects it with an
  error whose message is \<open>m\<close> (a lost connection, a deadlock, a violated constraint such
  as the foreign keys of schema.sql); past the end of the schedule every call goes
  through. \<open>clock\<close> is CURRENT_TIMESTAMP, \<open>console\<close> what \<open>console.error\<close> has printed
  (the label and the value logged with it).
\<close>

record world =
  committed :: tables
  working :: tables
  next_cart_item_id :: int
  next_order_id :: int
  next_order_item_id :: int
  faults :: "string option list"
  clock :: int
  console :: "(string \<times> string) list"

definition driver_call :: "world \<Rightarrow> (js_error + unit) \<times> world" where
  "driver_call w =
     (case faults w of
        [] \<Rightarrow> (Inr (), w)
      | None # fs \<Rightarrow> (Inr (), w\<lparr>faults := fs\<rparr>)
      | Some m # fs \<Rightarrow> (Inl (DbError m), w\<lparr>faults := fs\<rparr>))"

definition view :: "handle \<Rightarrow> world \<Rightarrow> tables" where
  "view h w = (case h of Pool \<Rightarrow> committed w | Connection \<Rightarrow> working w)"

text \<open>
  A write through the pool is committed at once, so the open transaction sees it too (it
  touches no row the transaction has written); a write through the connection stays in
  \<open>working\<close> until \<open>commit\<close>.
\<close>

definition apply_change :: "handle \<Rightarrow> (tables \<Rightarrow> tables) \<Rightarrow> world \<Rightarrow> world" where
  "apply_change h f w =
     (case h of
        Pool \<Rightarrow> w\<lparr>committed := f (committed w), working := f (working w)\<rparr>
      | Connection \<Rightarrow> w\<lparr>working := f (working w)\<rparr>)"

text \<open>
  \<open>handle.query(sql, params)\<close> for a SELECT, UPDATE or DELETE: \<open>stmt\<close> gives the result
  the driver returns (the rows, or \<open>affectedRows\<close>) and the tables after the statement.
  The Node drivers connect with the FOUND_ROWS flag, so \<open>affectedRows\<close> of an UPDATE
  counts the rows its WHERE clause matches.
\<close>

definition query :: "handle \<Rightarrow> (tables \<Rightarrow> 'r \<times> tables) \<Rightarrow> world \<Rightarrow> (js_error + 'r) \<times> world" where
  "query h stmt w =
     (case driver_call w of
        (Inl e, w1) \<Rightarrow> (Inl e, w1)
      | (Inr _, w1) \<Rightarrow> (Inr (fst (stmt (view h w1))), apply_change h (\<lambda>t. snd (stmt t)) w1))"

definition getConnection :: "world \<Rightarrow> (js_error + handle) \<times> world" where
  "getConnection w =
     (case driver_call w of
        (Inl e, w1) \<Rightarrow> (Inl e, w1)
      | (Inr _, w1) \<Rightarrow> (Inr Connection, w1))"

definition beginTransaction :: "world \<Rightarrow> (js_error + unit) \<times> world" where
  "beginTransaction w =
     (case driver_call w of
        (Inl e, w1) \<Rightarrow> (Inl e, w1)
      | (Inr _, w1) \<Rightarrow> (Inr (), w1\<lparr>working := committed w1\<rparr>))"

definition commit :: "world \<Rightarrow> (js_error + unit) \<times> world" where
  "commit w =
     (case driver_call w of
        (Inl e, w1) \<Rightarrow> (Inl e, w1)
      | (Inr _, w1) \<Rightarrow> (Inr (), w1\<lparr>committed := working w1\<rparr>))"

text \<open>
  \<open>connection.rollback()\<close>: a call to the driver like the others. When it goes through,
  the uncommitted writes are dropped; when the server refuses it, it rejects and the
  connection's view is left as it was.
\<close>

definition rollback :: "world \<Rightarrow> (js_error + unit) \<times> world" where
  "rollback w =
     (case driver_call w of
        (Inl e, w1) \<Rightarrow> (Inl e, w1)
      | (Inr _, w1) \<Rightarrow> (Inr (), w1\<lparr>working := committed w1\<rparr>))"

section \<open>productController.deductProductStock\<close>

text \<open>The decimal numeral a template literal prints for an integer.\<close>

definition digit_char :: "nat \<Rightarrow> char" where
  "digit_char d = ''0123456789'' ! d"

fun string_of_nat :: "nat \<Rightarrow> string" where
  "string_of_nat n =
     (if n < 10 then [digit_char n] else string_of_nat (n div 10) @ [digit_char (n mod 10)])"

declare string_of_nat.simps [simp del]

definition string_of_int :: "int \<Rightarrow> string" where
  "string_of_int i =
     (if i < 0 then CHR ''-'' # string_of_nat (nat (- i)) else string_of_nat (nat i))"

text \<open>
  \<open>UPDATE products SET stock_quantity = stock_quantity - ? WHERE id = ? AND
  stock_quantity >= ?\<close> with the parameters \<open>[quantity, productId, quantity]\<close>.
\<close>

definition update_stock :: "int \<Rightarrow> int \<Rightarrow> tables \<Rightarrow> nat \<times> tables" where
  "update_stock quantity productId t =
     (length (filter (\<lambda>p. p_id p = productId \<and> stock_quantity p \<ge> quantity) (products t)),
      t\<lparr>products :=
          map (\<lambda>p. if p_id p = productId \<and> stock_quantity p \<ge> quantity
                    then p\<lparr>stock_quantity := stock_quantity p - quantity\<rparr> else p)
            (products t)\<rparr>)"

definition insufficient_stock_message :: "int \<Rightarrow> string" where
  "insufficient_stock_message productId =
     ''Insufficient stock or product not found for product ID: '' @ string_of_int productId"

text \<open>\<open>connection || db\<close>: the connection handed in, or the pool.\<close>

definition db_handle :: "handle option \<Rightarrow> handle" where
  "db_handle connection = (case connection of Some c \<Rightarrow> c | None \<Rightarrow> Pool)"

definition deductProductStock ::
  "int \<Rightarrow> int \<Rightarrow> handle option \<Rightarrow> world \<Rightarrow> (js_error + bool) \<times> world" where
  "deductProductStock productId quantity connection w =
     (let dbConnection = db_handle connection in
      case query dbConnection (update_stock quantity productId) w of
        (Inl e, w1) \<Rightarrow> (Inl e, w1)
      | (Inr affectedRows, w1) \<Rightarrow>
          if affectedRows = 0
          then (Inl (AppError (insufficient_stock_message productId)), w1)
          else (Inr True, w1))"

text \<open>The stock a set of tables holds for a product: the row its primary key selects.\<close>

definition stock_of :: "tables \<Rightarrow> int \<Rightarrow> int option" where
  "stock_of t productId =
     map_option stock_quantity (find (\<lambda>p. p_id p = productId) (products t))"

text \<open>A sequence of calls against one product, each on the state the previous one left.\<close>

fun decrement_calls ::
  "int \<Rightarrow> int list \<Rightarrow> handle option \<Rightarrow> world \<Rightarrow> (js_error + bool) list \<times> world" where
  "decrement_calls productId [] connection w = ([], w)"
| "decrement_calls productId (q # qs) connection w =
     (case deductProductStock productId q connection w of
        (r, w1) \<Rightarrow>
          (case decrement_calls productId qs connection w1 of
             (rs, w2) \<Rightarrow> (r # rs, w2)))"

text \<open>The quantities of the calls that succeeded, added up.\<close>

fun successful_total :: "int list \<Rightarrow> (js_error + bool) list \<Rightarrow> int" where
  "successful_total (q # qs) (Inr ok # rs) = q + successful_total qs rs"
| "successful_total (q # qs) (Inl e # rs) = successful_total qs rs"
| "successful_total _ _ = 0"

section \<open>cartModel\<close>

text \<open>\<open>SELECT id, quantity FROM cart_items WHERE user_id = ? AND product_id = ?\<close>\<close>

definition select_cart_line :: "int \<Rightarrow> int \<Rightarrow> tables \<Rightarrow> (int \<times> int) list \<times> tables" where
  "select_cart_line userId productId t =
     (map (\<lambda>c. (ci_id c, ci_quantity c))
        (filter (\<lambda>c. ci_user_id c = userId \<and> ci_product_id c = productId) (cart_items t)),
      t)"

text \<open>\<open>UPDATE cart_items SET quantity = ? WHERE id = ?\<close>\<close>

definition update_cart_line :: "int \<Rightarrow> int \<Rightarrow> tables \<Rightarrow> nat \<times> tables" where
  "update_cart_line newQuantity cartItemId t =
     (length (filter (\<lambda>c. ci_id c = cartItemId) (cart_items t)),
      t\<lparr>cart_items :=
          map (\<lambda>c. if ci_id c = cartItemId then c\<lparr>ci_quantity := newQuantity\<rparr> else c)
            (cart_items t)\<rparr>)"

text \<open>
  \<open>INSERT INTO cart_items (user_id, product_id, quantity) VALUES (?, ?, ?)\<close>; the result
  is \<open>insertId\<close>, the AUTO_INCREMENT id the row was given.
\<close>

definition insert_cart_item ::
  "handle \<Rightarrow> int \<Rightarrow> int \<Rightarrow> int \<Rightarrow> world \<Rightarrow> (js_error + int) \<times> world" where
  "insert_cart_item h userId productId quantity w =
     (case driver_call w of
        (Inl e, w1) \<Rightarrow> (Inl e, w1)
      | (Inr _, w1) \<Rightarrow>
          (let insertId = next_cart_item_id w1 in
           (Inr insertId,
            apply_change h
              (\<lambda>t. t\<lparr>cart_items := cart_items t @
                     [\<lparr>ci_id = insertId, ci_user_id = userId, ci_product_id = productId,
                       ci_quantity = quantity\<rparr>]\<rparr>)
              (w1\<lparr>next_cart_item_id := insertId + 1\<rparr>))))"

definition addItem :: "int \<Rightarrow> int \<Rightarrow> int \<Rightarrow> world \<Rightarrow> (js_error + string \<times> int) \<times> world" where
  "addItem userId productId quantity w =
     (case query Pool (select_cart_line userId productId) w of
        (Inl e, w1) \<Rightarrow> (Inl e, w1)
      | (Inr existingItems, w1) \<Rightarrow>
          (case existingItems of
             existingCartItem # _ \<Rightarrow>
               (let newQuantity = snd existingCartItem + quantity in
                case query Pool (update_cart_line newQuantity (fst existingCartItem)) w1 of
                  (Inl e, w2) \<Rightarrow> (Inl e, w2)
                | (Inr _, w2) \<Rightarrow>
                    (Inr (''Cart item quantity updated successfully.'', fst existingCartItem),
                     w2))
           | [] \<Rightarrow>
               (case insert_cart_item Pool userId productId quantity w1 of
                  (Inl e, w2) \<Rightarrow> (Inl e, w2)
                | (Inr insertId, w2) \<Rightarrow>
                    (Inr (''Product added to cart successfully.'', insertId), w2))))"

text \<open>\<open>UPDATE cart_items SET quantity = ? WHERE id = ? AND user_id = ?\<close>\<close>

definition update_owned_line :: "int \<Rightarrow> int \<Rightarrow> int \<Rightarrow> tables \<Rightarrow> nat \<times> tables" where
  "update_owned_line quantity cartItemId userId t =
     (length (filter (\<lambda>c. ci_id c = cartItemId \<and> ci_user_id c = userId) (cart_items t)),
      t\<lparr>cart_items :=
          map (\<lambda>c. if ci_id c = cartItemId \<and> ci_user_id c = userId
                    then c\<lparr>ci_quantity := quantity\<rparr> else c)
            (cart_items t)\<rparr>)"

definition not_found_message :: string where
  "not_found_message = ''Cart item not found or does not belong to the user.''"

definition updateCartItemQuantity ::
  "int \<Rightarrow> int \<Rightarrow> int \<Rightarrow> world \<Rightarrow> (js_error + string) \<times> world" where
  "updateCartItemQuantity cartItemId userId quantity w =
     (case query Pool (update_owned_line quantity cartItemId userId) w of
        (Inl e, w1) \<Rightarrow> (Inl e, w1)
      | (Inr affectedRows, w1) \<Rightarrow>
          if affectedRows = 0 then (Inl (AppError not_found_message), w1)
          else (Inr ''Cart item quantity updated successfully.'', w1))"

text \<open>\<open>DELETE FROM cart_items WHERE id = ? AND user_id = ?\<close>\<close>

definition delete_owned_line :: "int \<Rightarrow> int \<Rightarrow> tables \<Rightarrow> nat \<times> tables" where
  "delete_owned_line cartItemId userId t =
     (length (filter (\<lambda>c. ci_id c = cartItemId \<and> ci_user_id c = userId) (cart_items t)),
      t\<lparr>cart_items :=
          filter (\<lambda>c. \<not> (ci_id c = cartItemId \<and> ci_user_id c = userId)) (cart_items t)\<rparr>)"

definition removeCartItem :: "int \<Rightarrow> int \<Rightarrow> world \<Rightarrow> (js_error + string) \<times> world" where
  "removeCartItem cartItemId userId w =
     (case query Pool (delete_owned_line cartItemId userId) w of
        (Inl e, w1) \<Rightarrow> (Inl e, w1)
      | (Inr affectedRows, w1) \<Rightarrow>
          if affectedRows = 0 then (Inl (AppError not_found_message), w1)
          else (Inr ''Product removed from cart successfully.'', w1))"

text \<open>\<open>DELETE FROM cart_items WHERE user_id = ?\<close>, through the pool.\<close>

definition delete_cart :: "int \<Rightarrow> tables \<Rightarrow> nat \<times> tables" where
  "delete_cart userId t =
     (length (filter (\<lambda>c. ci_user_id c = userId) (cart_items t)),
      t\<lparr>cart_items := filter (\<lambda>c. ci_user_id c \<noteq> userId) (cart_items t)\<rparr>)"

definition clearCart :: "int \<Rightarrow> world \<Rightarrow> (js_error + string \<times> nat) \<times> world" where
  "clearCart userId w =
     (case query Pool (delete_cart userId) w of
        (Inl e, w1) \<Rightarrow> (Inl e, w1)
      | (Inr affectedRows, w1) \<Rightarrow> (Inr (''Cart cleared successfully.'', affectedRows), w1))"

section \<open>orderController.createOrder\<close>

text \<open>
  The request: \<open>req.body\<close> and \<open>req.user.id\<close>. \<open>body_items\<close> is \<open>None\<close> when \<open>items\<close> is
  missing or is not an array; \<open>body_totalAmount\<close> is \<open>None\<close> when \<open>totalAmount\<close> is
  \<open>undefined\<close> or \<open>null\<close>; \<open>body_shippingAddress\<close> is \<open>None\<close> when \<open>shippingAddress\<close> is
  \<open>undefined\<close>. The elements of \<open>items\<close> are taken to be objects and their fields numbers.
\<close>

record item =
  item_product_id :: int
  item_quantity :: int
  item_product_price :: decimal

record order_request =
  body_items :: "item list option"
  body_totalAmount :: "decimal option"
  body_shippingAddress :: "json option"
  req_user_id :: int

text \<open>The values \<open>!x\<close> is true of.\<close>

fun falsy :: "json \<Rightarrow> bool" where
  "falsy JNull = True"
| "falsy (JBool b) = (\<not> b)"
| "falsy (JNum n) = (n = 0)"
| "falsy (JStr s) = (s = [])"
| "falsy (JArr xs) = False"
| "falsy (JObj kvs) = False"

text \<open>
  What the caller gets: \<open>res.status(code).json(body)\<close>, or nothing at all when the
  handler's promise rejects before it has answered.
\<close>

datatype 'b response = Response nat 'b | NoResponse

datatype order_reply = Message string | Placed string int

text \<open>
  \<open>INSERT INTO orders (user_id, total_amount, shipping_address, status) VALUES (?, ?, ?, ?)\<close>;
  \<open>order_date\<close> takes its default, CURRENT_TIMESTAMP.
\<close>

definition insert_order ::
  "handle \<Rightarrow> int \<Rightarrow> decimal \<Rightarrow> string \<Rightarrow> string \<Rightarrow> world \<Rightarrow> (js_error + int) \<times> world" where
  "insert_order h userId totalAmount shippingAddress status w =
     (case driver_call w of
        (Inl e, w1) \<Rightarrow> (Inl e, w1)
      | (Inr _, w1) \<Rightarrow>
          (let insertId = next_order_id w1 in
           (Inr insertId,
            apply_change h
              (\<lambda>t. t\<lparr>orders := orders t @
                     [\<lparr>o_id = insertId, o_user_id = userId, o_total_amount = totalAmount,
                       o_shipping_address = Text shippingAddress, o_status = status,
                       o_order_date = clock w1\<rparr>]\<rparr>)
              (w1\<lparr>next_order_id := insertId + 1\<rparr>))))"

text \<open>\<open>INSERT INTO order_items (order_id, product_id, quantity, price) VALUES (?, ?, ?, ?)\<close>\<close>

definition insert_order_item ::
  "handle \<Rightarrow> int \<Rightarrow> int \<Rightarrow> int \<Rightarrow> decimal \<Rightarrow> world \<Rightarrow> (js_error + int) \<times> world" where
  "insert_order_item h orderId productId quantity price w =
     (case driver_call w of
        (Inl e, w1) \<Rightarrow> (Inl e, w1)
      | (Inr _, w1) \<Rightarrow>
          (let insertId = next_order_item_id w1 in
           (Inr insertId,
            apply_change h
              (\<lambda>t. t\<lparr>order_items := order_items t @
                     [\<lparr>oi_id = insertId, oi_order_id = orderId, oi_product_id = productId,
                       oi_quantity = quantity, oi_price = price\<rparr>]\<rparr>)
              (w1\<lparr>next_order_item_id := insertId + 1\<rparr>))))"

text \<open>The loop \<open>for (const item of items)\<close>: the first rejection leaves it.\<close>

fun order_lines :: "int \<Rightarrow> item list \<Rightarrow> world \<Rightarrow> (js_error + unit) \<times> world" where
  "order_lines orderId [] w = (Inr (), w)"
| "order_lines orderId (it # its) w =
     (case insert_order_item Connection orderId (item_product_id it) (item_quantity it)
             (item_product_price it) w of
        (Inl e, w1) \<Rightarrow> (Inl e, w1)
      | (Inr _, w1) \<Rightarrow>
          (case deductProductStock (item_product_id it) (item_quantity it) (Some Connection) w1 of
             (Inl e, w2) \<Rightarrow> (Inl e, w2)
           | (Inr _, w2) \<Rightarrow> order_lines orderId its w2))"

text \<open>
  The \<open>try\<close> block from \<open>beginTransaction\<close> to \<open>commit\<close>; \<open>stringify\<close> is
  \<open>JSON.stringify\<close>. \<open>cartModel.clearCart\<close> is called as the model exports it, with the
  user's id only.
\<close>

definition createOrder_try ::
  "(json \<Rightarrow> string) \<Rightarrow> int \<Rightarrow> item list \<Rightarrow> decimal \<Rightarrow> json \<Rightarrow> world \<Rightarrow> (js_error + int) \<times> world" where
  "createOrder_try stringify userId its totalAmount shippingAddress w =
     (case beginTransaction w of
        (Inl e, w1) \<Rightarrow> (Inl e, w1)
      | (Inr _, w1) \<Rightarrow>
     (case insert_order Connection userId totalAmount (stringify shippingAddress) ''pending'' w1 of
        (Inl e, w2) \<Rightarrow> (Inl e, w2)
      | (Inr orderId, w2) \<Rightarrow>
     (case order_lines orderId its w2 of
        (Inl e, w3) \<Rightarrow> (Inl e, w3)
      | (Inr _, w3) \<Rightarrow>
     (case clearCart userId w3 of
        (Inl e, w4) \<Rightarrow> (Inl e, w4)
      | (Inr _, w4) \<Rightarrow>
     (case commit w4 of
        (Inl e, w5) \<Rightarrow> (Inl e, w5)
      | (Inr _, w5) \<Rightarrow> (Inr orderId, w5))))))"

text \<open>
  The end of the \<open>catch\<close> block: \<open>console.error\<close>, then the 500 whose message is
  \<open>error.message || 'Failed to place order.'\<close> (an empty message is falsy).
\<close>

definition respond_failure :: "js_error \<Rightarrow> world \<Rightarrow> order_reply response \<times> world" where
  "respond_failure error w =
     (Response 500
        (Message (if message error = [] then ''Failed to place order.'' else message error)),
      w\<lparr>console := console w @ [(''Error placing order:'', message error)]\<rparr>)"

text \<open>
  The handler. When \<open>getConnection\<close> rejects, \<open>connection\<close> is still undefined and the
  \<open>catch\<close> block rolls nothing back. Otherwise the \<open>catch\<close> block awaits
  \<open>connection.rollback()\<close> first, with nothing around it: when the rollback rejects, the
  handler's promise rejects there, before \<open>console.error\<close> and \<open>res.status(500)\<close>, and
  the caller gets no reply. \<open>connection.release()\<close> in the \<open>finally\<close> block changes no
  table and is left out.
\<close>

definition createOrder ::
  "(json \<Rightarrow> string) \<Rightarrow> order_request \<Rightarrow> world \<Rightarrow> order_reply response \<times> world" where
  "createOrder stringify req w =
     (case body_items req of
        None \<Rightarrow> (Response 400 (Message ''Order must contain at least one item.''), w)
      | Some its \<Rightarrow>
          if its = [] then (Response 400 (Message ''Order must contain at least one item.''), w)
          else
     (case body_totalAmount req of
        None \<Rightarrow> (Response 400 (Message ''Total amount is required.''), w)
      | Some totalAmount \<Rightarrow>
     (case body_shippingAddress req of
        None \<Rightarrow> (Response 400 (Message ''Shipping address is required.''), w)
      | Some shippingAddress \<Rightarrow>
          if falsy shippingAddress
          then (Response 400 (Message ''Shipping address is required.''), w)
          else
     (case getConnection w of
        (Inl error, w1) \<Rightarrow> respond_failure error w1
      | (Inr connection, w1) \<Rightarrow>
     (case createOrder_try stringify (req_user_id req) its totalAmount shippingAddress w1 of
        (Inl error, w2) \<Rightarrow>
          (case rollback w2 of
             (Inl rejected, w3) \<Rightarrow> (NoResponse, w3)
           | (Inr _, w3) \<Rightarrow> respond_failure error w3)
      | (Inr orderId, w2) \<Rightarrow>
          (Response 201 (Placed ''Order placed successfully!'' orderId), w2))))))"

section \<open>orderController.getUserOrders and getAllOrders\<close>

text \<open>
  A row of the joined result. \<open>r_customer\<close> holds the columns only the admin query
  selects (\<open>customer_username\<close>, \<open>customer_email\<close>); the user's query has none.
\<close>

record 'c order_line =
  r_order_id :: int
  r_order_date :: int
  r_total_amount :: decimal
  r_status :: string
  r_shipping_address :: column
  r_quantity :: int
  r_item_price :: decimal
  r_product_name :: string
  r_product_image_id :: "string option"
  r_customer :: 'c

text \<open>The columns both queries select from an order, one of its items and the item's product.\<close>

definition joined_row :: "order_row \<Rightarrow> order_item \<Rightarrow> product \<Rightarrow> 'c \<Rightarrow> 'c order_line" where
  "joined_row o_row oi p c =
     \<lparr>r_order_id = o_id o_row, r_order_date = o_order_date o_row,
      r_total_amount = o_total_amount o_row, r_status = o_status o_row,
      r_shipping_address = o_shipping_address o_row,
      r_quantity = oi_quantity oi, r_item_price = oi_price oi,
      r_product_name = p_name p, r_product_image_id = p_image_id p,
      r_customer = c\<rparr>"

text \<open>
  The user's query: \<open>orders\<close> joined with \<open>order_items\<close> and \<open>products\<close>, the user's
  orders only, \<open>ORDER BY o.order_date DESC\<close> (rows of one date in the order the join
  produced them).
\<close>

definition user_orders_sql :: "int \<Rightarrow> tables \<Rightarrow> unit order_line list \<times> tables" where
  "user_orders_sql userId t =
     (sort_key (\<lambda>r. - r_order_date r)
        [joined_row o_row oi p ().
           o_row \<leftarrow> orders t, oi \<leftarrow> order_items t, o_id o_row = oi_order_id oi,
           p \<leftarrow> products t, oi_product_id oi = p_id p, o_user_id o_row = userId],
      t)"

text \<open>The admin's query: the same join with \<open>users\<close> as well, over every order.\<close>

definition all_orders_sql :: "tables \<Rightarrow> (string \<times> string) order_line list \<times> tables" where
  "all_orders_sql t =
     (sort_key (\<lambda>r. - r_order_date r)
        [joined_row o_row oi p (u_username u, u_email u).
           o_row \<leftarrow> orders t, u \<leftarrow> users t, o_user_id o_row = u_id u,
           oi \<leftarrow> order_items t, o_id o_row = oi_order_id oi,
           p \<leftarrow> products t, oi_product_id oi = p_id p],
      t)"

text \<open>
  The objects of the response. \<open>'n\<close> is the JavaScript number \<open>parseFloat\<close> returns;
  \<open>v_shipping_address\<close> is \<open>JNull\<close> for \<open>null\<close>; \<open>v_customer\<close> is the \<open>customer\<close> object
  of the admin's view.
\<close>

record 'n line_view =
  l_product_name :: string
  l_quantity :: int
  l_item_price :: 'n
  l_image_url :: "string option"

record ('n, 'c) order_view =
  v_order_id :: int
  v_order_date :: int
  v_total_amount :: 'n
  v_status :: string
  v_shipping_address :: json
  v_customer :: 'c
  v_items :: "'n line_view list"

definition parse_failure_label :: "int \<Rightarrow> string" where
  "parse_failure_label orderId =
     ''Could not parse shipping address for order ID '' @ string_of_int orderId @ '':''"

text \<open>
  The body of \<open>results.forEach\<close>, the same in both handlers. \<open>ordersMap\<close> is the \<open>Map\<close>,
  its entries in insertion order; \<open>parse\<close> is \<open>JSON.parse\<close> (\<open>None\<close> when it throws),
  \<open>parseFloat\<close> the builtin. The console is threaded along for the \<open>console.error\<close> of
  the inner \<open>catch\<close>, which \<open>parse_address\<close> models with its \<open>try\<close>.
\<close>

definition parse_address ::
  "(string \<Rightarrow> json option) \<Rightarrow> 'c order_line \<Rightarrow> (string \<times> string) list \<Rightarrow>
   json \<times> (string \<times> string) list" where
  "parse_address parse row out =
     (case r_shipping_address row of
        Text s \<Rightarrow>
          (case parse s of
             Some a \<Rightarrow> (a, out)
           | None \<Rightarrow> (JNull, out @ [(parse_failure_label (r_order_id row), s)]))
      | Object a \<Rightarrow> (a, out))"

text \<open>The object pushed onto \<open>items\<close> for a row.\<close>

definition line_of :: "(decimal \<Rightarrow> 'n) \<Rightarrow> 'c order_line \<Rightarrow> 'n line_view" where
  "line_of parseFloat row =
     \<lparr>l_product_name = r_product_name row, l_quantity = r_quantity row,
      l_item_price = parseFloat (r_item_price row), l_image_url = r_product_image_id row\<rparr>"

definition group_row ::
  "(string \<Rightarrow> json option) \<Rightarrow> (decimal \<Rightarrow> 'n) \<Rightarrow>
   (int \<times> ('n, 'c) order_view) list \<times> (string \<times> string) list \<Rightarrow> 'c order_line \<Rightarrow>
   (int \<times> ('n, 'c) order_view) list \<times> (string \<times> string) list" where
  "group_row parse parseFloat acc row =
     (case acc of (ordersMap, out) \<Rightarrow>
        (case (if r_order_id row \<in> set (map fst ordersMap) then (ordersMap, out)
               else (case parse_address parse row out of
                       (parsedAddress, out1) \<Rightarrow>
                         (ordersMap @
                            [(r_order_id row,
                              \<lparr>v_order_id = r_order_id row, v_order_date = r_order_date row,
                                v_total_amount = parseFloat (r_total_amount row),
                                v_status = r_status row, v_shipping_address = parsedAddress,
                                v_customer = r_customer row, v_items = []\<rparr>)],
                          out1))) of
           (ordersMap1, out1) \<Rightarrow>
             (map (\<lambda>(k, v). if k = r_order_id row
                     then (k, v\<lparr>v_items := v_items v @ [line_of parseFloat row]\<rparr>)
                     else (k, v)) ordersMap1,
              out1)))"

text \<open>
  What the specification asks of the view of an order, given the rows of the result and
  the first of them that belongs to the order: the header columns of that row, the
  shipping address parsed (\<open>null\<close> when it cannot be), and a line for every row of the
  order, in the order of the rows.
\<close>

definition expected_address :: "(string \<Rightarrow> json option) \<Rightarrow> column \<Rightarrow> json" where
  "expected_address parse c =
     (case c of
        Text s \<Rightarrow> (case parse s of Some a \<Rightarrow> a | None \<Rightarrow> JNull)
      | Object a \<Rightarrow> a)"

definition expected_view ::
  "(string \<Rightarrow> json option) \<Rightarrow> (decimal \<Rightarrow> 'n) \<Rightarrow> 'c order_line list \<Rightarrow> 'c order_line \<Rightarrow>
   ('n, 'c) order_view" where
  "expected_view parse parseFloat rows row =
     \<lparr>v_order_id = r_order_id row, v_order_date = r_order_date row,
      v_total_amount = parseFloat (r_total_amount row), v_status = r_status row,
      v_shipping_address = expected_address parse (r_shipping_address row),
      v_customer = r_customer row,
      v_items = map (line_of parseFloat) (filter (\<lambda>x. r_order_id x = r_order_id row) rows)\<rparr>"

text \<open>
  What the specification asks of the views returned for a result: one view per order id
  of the rows, each the expected view of its order; the views by order date, latest
  first; and for every order whose stored address is a text that does not parse, the
  anomaly on the console.
\<close>

definition grouped_history ::
  "(string \<Rightarrow> json option) \<Rightarrow> (decimal \<Rightarrow> 'n) \<Rightarrow> 'c order_line list \<Rightarrow>
   ('n, 'c) order_view list \<Rightarrow> (string \<times> string) list \<Rightarrow> bool" where
  "grouped_history parse parseFloat rows views out =
     (distinct (map v_order_id views)
      \<and> set (map v_order_id views) = set (map r_order_id rows)
      \<and> (\<forall>v \<in> set views.
            case find (\<lambda>x. r_order_id x = v_order_id v) rows of
              Some r \<Rightarrow> v = expected_view parse parseFloat rows r
            | None \<Rightarrow> False)
      \<and> sorted_wrt (\<lambda>a b. v_order_date b \<le> v_order_date a) views
      \<and> (\<forall>r \<in> set rows.
            find (\<lambda>x. r_order_id x = r_order_id r) rows = Some r \<longrightarrow>
            (case r_shipping_address r of
               Text s \<Rightarrow>
                 (case parse s of
                    None \<Rightarrow> (parse_failure_label (r_order_id r), s) \<in> set out
                  | Some a \<Rightarrow> True)
             | Object a \<Rightarrow> True)))"

text \<open>An order has a line whose product is still in the catalogue.\<close>

definition has_listed_line :: "tables \<Rightarrow> order_row \<Rightarrow> bool" where
  "has_listed_line t o_row =
     (\<exists>oi \<in> set (order_items t). oi_order_id oi = o_id o_row
        \<and> (\<exists>p \<in> set (products t). p_id p = oi_product_id oi))"

datatype 'v history_reply = Failure string | History "'v list"

definition getUserOrders ::
  "(string \<Rightarrow> json option) \<Rightarrow> (decimal \<Rightarrow> 'n) \<Rightarrow> int \<Rightarrow> world \<Rightarrow>
   ('n, unit) order_view history_reply response \<times> world" where
  "getUserOrders parse parseFloat userId w =
     (case query Pool (user_orders_sql userId) w of
        (Inl error, w1) \<Rightarrow>
          (Response 500 (Failure ''Failed to fetch user orders.''),
           w1\<lparr>console := console w1 @ [(''Error fetching user orders:'', message error)]\<rparr>)
      | (Inr results, w1) \<Rightarrow>
          (case foldl (group_row parse parseFloat) ([], console w1) results of
             (ordersMap, out) \<Rightarrow>
               (Response 200 (History (map snd ordersMap)), w1\<lparr>console := out\<rparr>)))"

definition getAllOrders ::
  "(string \<Rightarrow> json option) \<Rightarrow> (decimal \<Rightarrow> 'n) \<Rightarrow> world \<Rightarrow>
   ('n, string \<times> string) order_view history_reply response \<times> world" where
  "getAllOrders parse parseFloat w =
     (case query Pool all_orders_sql w of
        (Inl error, w1) \<Rightarrow>
          (Response 500 (Failure ''Failed to fetch all orders.''),
           w1\<lparr>console := console w1 @ [(''Error fetching all orders:'', message error)]\<rparr>)
      | (Inr results, w1) \<Rightarrow>
          (case foldl (group_row parse parseFloat) ([], console w1) results of
             (ordersMap, out) \<Rightarrow>
               (Response 200 (History (map snd ordersMap)), w1\<lparr>console := out\<rparr>)))"

section \<open>A shop to run the code on\<close>

text \<open>
  Two users, two products (P1 with five in stock, P2 with one), the first user's cart
  holding three of P1 and one of P2, the second user's cart two of P1; no orders yet.
\<close>

definition shop_tables :: tables where
  "shop_tables =
     \<lparr>users = [\<lparr>u_id = 1, u_username = ''asha'', u_email = ''asha@example.org''\<rparr>,
               \<lparr>u_id = 2, u_username = ''ravi'', u_email = ''ravi@example.org''\<rparr>],
      products = [\<lparr>p_id = 1, p_name = ''P1'', p_image_id = None, stock_quantity = 5\<rparr>,
                  \<lparr>p_id = 2, p_name = ''P2'', p_image_id = Some ''p2.png'', stock_quantity = 1\<rparr>],
      cart_items = [\<lparr>ci_id = 1, ci_user_id = 1, ci_product_id = 1, ci_quantity = 3\<rparr>,
                    \<lparr>ci_id = 2, ci_user_id = 1, ci_product_id = 2, ci_quantity = 1\<rparr>,
                    \<lparr>ci_id = 3, ci_user_id = 2, ci_product_id = 1, ci_quantity = 2\<rparr>],
      orders = [],
      order_items = []\<rparr>"

definition shop :: world where
  "shop =
     \<lparr>committed = shop_tables, working = shop_tables,
      next_cart_item_id = 4, next_order_id = 1, next_order_item_id = 1,
      faults = [], clock = 1000, console = []\<rparr>"

text \<open>
  The first user's checkout of that cart. The shipping address is the empty object,
  which is truthy; \<open>shop_stringify\<close> is what \<open>JSON.stringify\<close> returns for it.
\<close>

definition shop_order :: order_request where
  "shop_order =
     \<lparr>body_items = Some [\<lparr>item_product_id = 1, item_quantity = 3, item_product_price = 25000\<rparr>,
                         \<lparr>item_product_id = 2, item_quantity = 1, item_product_price = 9900\<rparr>],
      body_totalAmount = Some 84900,
      body_shippingAddress = Some (JObj []),
      req_user_id = 1\<rparr>"

definition shop_stringify :: "json \<Rightarrow> string" where
  "shop_stringify a = ''{}''"

text \<open>A checkout that asks for one of P2 and then six of P1, one more than there are.\<close>

definition shop_short_order :: order_request where
  "shop_short_order =
     \<lparr>body_items = Some [\<lparr>item_product_id = 2, item_quantity = 1, item_product_price = 9900\<rparr>,
                         \<lparr>item_product_id = 1, item_quantity = 6, item_product_price = 25000\<rparr>],
      body_totalAmount = Some 159900,
      body_shippingAddress = Some (JObj []),
      req_user_id = 1\<rparr>"

text \<open>
  The shop on a day the server lets \<open>getConnection\<close> and \<open>beginTransaction\<close> through and
  refuses the next statement, and on a day it executes every statement of a checkout of
  two lines and then refuses the \<open>commit\<close>.
\<close>

definition shop_deadlock :: world where
  "shop_deadlock =
     shop\<lparr>faults := [None, None,
       Some ''Deadlock found when trying to get lock; try restarting transaction'']\<rparr>"

definition shop_commit_lost :: world where
  "shop_commit_lost =
     shop\<lparr>faults := [None, None, None, None, None, None, None, None,
       Some ''Connection lost: The server closed the connection.'']\<rparr>"

text \<open>A checkout whose one line asks for minus five of P1.\<close>

definition shop_negative_order :: order_request where
  "shop_negative_order =
     \<lparr>body_items = Some [\<lparr>item_product_id = 1, item_quantity = - 5, item_product_price = 25000\<rparr>],
      body_totalAmount = Some 0,
      body_shippingAddress = Some (JObj []),
      req_user_id = 1\<rparr>"

text \<open>
  The shop some days later: the first user has two orders (the earlier one stored with
  an address text that is not JSON, the later one handed back by the driver as an
  object), the second user has an order whose only line was removed with its product.
  \<open>shop_parse\<close> is \<open>JSON.parse\<close> on the texts this shop holds; \<open>shop_parseFloat\<close> keeps
  the number in hundredths.
\<close>

definition shop_history_tables :: tables where
  "shop_history_tables =
     shop_tables\<lparr>
       orders := [\<lparr>o_id = 1, o_user_id = 1, o_total_amount = 84900,
                   o_shipping_address = Text ''{city'', o_status = ''shipped'',
                   o_order_date = 1000\<rparr>,
                  \<lparr>o_id = 2, o_user_id = 2, o_total_amount = 5000,
                   o_shipping_address = Text ''{}'', o_status = ''pending'',
                   o_order_date = 1500\<rparr>,
                  \<lparr>o_id = 3, o_user_id = 1, o_total_amount = 25000,
                   o_shipping_address = Object (JObj []), o_status = ''pending'',
                   o_order_date = 2000\<rparr>],
       order_items := [\<lparr>oi_id = 1, oi_order_id = 1, oi_product_id = 1, oi_quantity = 3,
                        oi_price = 25000\<rparr>,
                       \<lparr>oi_id = 2, oi_order_id = 1, oi_product_id = 2, oi_quantity = 1,
                        oi_price = 9900\<rparr>,
                       \<lparr>oi_id = 4, oi_order_id = 3, oi_product_id = 1, oi_quantity = 1,
                        oi_price = 25000\<rparr>]\<rparr>"

definition shop_history :: world where
  "shop_history =
     shop\<lparr>committed := shop_history_tables, working := shop_history_tables,
          next_order_id := 4, next_order_item_id := 5\<rparr>"

definition shop_parse :: "string \<Rightarrow> json option" where
  "shop_parse s = (if s = ''{}'' then Some (JObj []) else None)"

definition shop_parseFloat :: "decimal \<Rightarrow> int" where
  "shop_parseFloat d = d"


section \<open>The driver and the conditional decrement\<close>

lemma driver_call_frame:
  "driver_call w = (r, w1) \<Longrightarrow> w1 = w\<lparr>faults := faults w1\<rparr>"
  by (auto simp: driver_call_def split: list.splits option.splits)

lemma driver_call_no_faults:
  "faults w = [] \<Longrightarrow> driver_call w = (Inr (), w)"
  by (simp add: driver_call_def)

lemma view_faults [simp]: "view h (w\<lparr>faults := fs\<rparr>) = view h w"
  by (simp add: view_def split: handle.splits)

lemma view_apply_change [simp]: "view h (apply_change h f w) = f (view h w)"
  by (simp add: view_def apply_change_def split: handle.splits)

lemma query_cases:
  assumes "query h stmt w = (r, w1)"
  shows "(\<exists>e fs. r = Inl e \<and> w1 = w\<lparr>faults := fs\<rparr>)
       \<or> (\<exists>fs. r = Inr (fst (stmt (view h w))) \<and> w1 = apply_change h (\<lambda>t. snd (stmt t)) (w\<lparr>faults := fs\<rparr>))"
proof (cases "driver_call w")
  case (Pair d w0)
  then obtain fs where w0: "w0 = w\<lparr>faults := fs\<rparr>"
    using driver_call_frame by blast
  show ?thesis
    using assms Pair w0 by (cases d) (auto simp: query_def)
qed

lemma query_no_faults:
  "faults w = [] \<Longrightarrow>
   query h stmt w = (Inr (fst (stmt (view h w))), apply_change h (\<lambda>t. snd (stmt t)) w)"
  by (simp add: query_def driver_call_no_faults)

lemma matched_rows_zero:
  "distinct (map p_id ps) \<Longrightarrow>
   (length (filter (\<lambda>p. p_id p = i \<and> q \<le> stock_quantity p) ps) = 0)
   = (\<not> (\<exists>s. map_option stock_quantity (find (\<lambda>p. p_id p = i) ps) = Some s \<and> q \<le> s))"
proof (induction ps)
  case Nil
  then show ?case by simp
next
  case (Cons p ps)
  show ?case
  proof (cases "p_id p = i")
    case True
    from Cons.prems have "p_id p \<notin> p_id ` set ps" by simp
    with True have "\<forall>x \<in> set ps. p_id x \<noteq> i" by (metis imageI)
    then have "filter (\<lambda>p. p_id p = i \<and> q \<le> stock_quantity p) ps = []"
      by (auto simp: filter_empty_conv)
    with True show ?thesis by simp
  next
    case False
    with Cons show ?thesis by simp
  qed
qed

lemma find_decremented:
  "map_option stock_quantity
     (find (\<lambda>p. p_id p = j)
        (map (\<lambda>p. if p_id p = i \<and> q \<le> stock_quantity p
                  then p\<lparr>stock_quantity := stock_quantity p - q\<rparr> else p) ps))
   = (if j = i
      then map_option (\<lambda>s. if q \<le> s then s - q else s)
             (map_option stock_quantity (find (\<lambda>p. p_id p = i) ps))
      else map_option stock_quantity (find (\<lambda>p. p_id p = j) ps))"
  by (induction ps) auto

lemma ids_update_stock:
  "map p_id (products (snd (update_stock q i t))) = map p_id (products t)"
  by (simp add: update_stock_def comp_def)

lemma stock_of_update_stock:
  "stock_of (snd (update_stock q i t)) j
   = (if j = i then map_option (\<lambda>s. if q \<le> s then s - q else s) (stock_of t i)
      else stock_of t j)"
  by (simp add: stock_of_def update_stock_def find_decremented)

lemma update_stock_unmatched:
  "fst (update_stock q i t) = 0 \<Longrightarrow> snd (update_stock q i t) = t"
proof -
  assume "fst (update_stock q i t) = 0"
  then have "\<forall>p \<in> set (products t). \<not> (p_id p = i \<and> q \<le> stock_quantity p)"
    by (auto simp: update_stock_def filter_empty_conv)
  then have "map (\<lambda>p. if p_id p = i \<and> q \<le> stock_quantity p
                  then p\<lparr>stock_quantity := stock_quantity p - q\<rparr> else p) (products t) = products t"
    by (intro map_idI) auto
  then show ?thesis by (simp add: update_stock_def)
qed

lemma fst_update_stock_zero:
  "distinct (map p_id (products t)) \<Longrightarrow>
   (fst (update_stock q i t) = 0) = (\<not> (\<exists>s. stock_of t i = Some s \<and> q \<le> s))"
  unfolding update_stock_def stock_of_def fst_conv by (rule matched_rows_zero)


lemma deduct_step:
  assumes "distinct (map p_id (products (view (db_handle c) w)))"
      and "stock_of (view (db_handle c) w) i = Some S"
      and "deductProductStock i q c w = (r, w1)"
  shows "distinct (map p_id (products (view (db_handle c) w1)))
       \<and> (case r of
            Inl e \<Rightarrow> stock_of (view (db_handle c) w1) i = Some S
          | Inr ok \<Rightarrow> q \<le> S \<and> stock_of (view (db_handle c) w1) i = Some (S - q))"
proof (cases "query (db_handle c) (update_stock q i) w")
  case (Pair a w0)
  from query_cases [OF Pair] show ?thesis
  proof (elim disjE exE conjE)
    fix e fs
    assume "a = Inl e" "w0 = w\<lparr>faults := fs\<rparr>"
    with assms Pair show ?thesis
      by (auto simp: deductProductStock_def)
  next
    fix fs
    assume a: "a = Inr (fst (update_stock q i (view (db_handle c) w)))"
       and w0: "w0 = apply_change (db_handle c) (\<lambda>t. snd (update_stock q i t)) (w\<lparr>faults := fs\<rparr>)"
    have v: "view (db_handle c) w0 = snd (update_stock q i (view (db_handle c) w))"
      by (simp add: w0)
    have d: "distinct (map p_id (products (view (db_handle c) w0)))"
      by (simp add: v ids_update_stock assms(1))
    show ?thesis
    proof (cases "fst (update_stock q i (view (db_handle c) w)) = 0")
      case True
      then have "view (db_handle c) w0 = view (db_handle c) w"
        by (simp add: v update_stock_unmatched)
      with assms Pair a True show ?thesis
        by (auto simp: deductProductStock_def)
    next
      case False
      then have "q \<le> S"
        using fst_update_stock_zero [OF assms(1), of q i] assms(2) by simp
      moreover have "stock_of (view (db_handle c) w0) i = Some (S - q)"
        using \<open>q \<le> S\<close> by (simp add: v stock_of_update_stock assms(2))
      ultimately show ?thesis
        using assms(3) Pair a False d by (auto simp: deductProductStock_def)
    qed
  qed
qed

lemma shop_view [simp]: "view Pool shop = shop_tables" "view Connection shop = shop_tables"
  by (simp_all add: view_def shop_def)

section \<open>Claims about the conditional decrement\<close>

text \<open>
  C4. When the server executes the statement, \<open>deductProductStock\<close> succeeds and takes
  exactly \<open>quantity\<close> off the product's stock if the product exists with at least that
  much in stock, leaving every other product's stock as it was; otherwise (no such
  product, or too little stock, the two not told apart) it throws the one
  insufficient-stock error and the tables it ran on are unchanged.
\<close>

theorem deductProductStock_conditional:
  fixes w :: world and c :: "handle option" and i q :: int
  defines "h \<equiv> db_handle c"
  defines "r \<equiv> deductProductStock i q c w"
  assumes "faults w = []" and "distinct (map p_id (products (view h w)))"
  shows "case stock_of (view h w) i of
           None \<Rightarrow> fst r = Inl (AppError (insufficient_stock_message i)) \<and> view h (snd r) = view h w
         | Some s \<Rightarrow>
             if q \<le> s
             then fst r = Inr True \<and> stock_of (view h (snd r)) i = Some (s - q)
                  \<and> (\<forall>j. j \<noteq> i \<longrightarrow> stock_of (view h (snd r)) j = stock_of (view h w) j)
             else fst r = Inl (AppError (insufficient_stock_message i)) \<and> view h (snd r) = view h w"
proof -
  let ?u = "update_stock q i (view h w)"
  have q: "query h (update_stock q i) w
             = (Inr (fst ?u), apply_change h (\<lambda>t. snd (update_stock q i t)) w)"
    using assms(3) by (rule query_no_faults)
  have v: "view h (apply_change h (\<lambda>t. snd (update_stock q i t)) w) = snd ?u"
    by simp
  have z: "(fst ?u = 0) = (\<not> (\<exists>s. stock_of (view h w) i = Some s \<and> q \<le> s))"
    using assms(4) by (rule fst_update_stock_zero)
  show ?thesis
  proof (cases "fst ?u = 0")
    case True
    then have "snd ?u = view h w" by (rule update_stock_unmatched)
    with True z q v show ?thesis
      by (auto simp: r_def h_def deductProductStock_def split: option.splits)
  next
    case False
    with z obtain s where s: "stock_of (view h w) i = Some s" "q \<le> s" by blast
    with False q v show ?thesis
      by (simp add: r_def h_def deductProductStock_def stock_of_update_stock)
  qed
qed

theorem deductProductStock_conditional_witness:
  "fst (deductProductStock 1 3 None shop) = Inr True
   \<and> stock_of (view Pool (snd (deductProductStock 1 3 None shop))) 1 = Some 2
   \<and> fst (deductProductStock 1 6 None shop) = Inl (AppError (insufficient_stock_message 1))
   \<and> view Pool (snd (deductProductStock 1 6 None shop)) = view Pool shop
   \<and> fst (deductProductStock 7 1 None shop) = Inl (AppError (insufficient_stock_message 7))
   \<and> view Pool (snd (deductProductStock 7 1 None shop)) = view Pool shop"
proof -
  have f: "faults shop = []" by (simp add: shop_def)
  have d: "distinct (map p_id (products (view (db_handle None) shop)))"
    by (simp add: db_handle_def shop_tables_def)
  have s1: "stock_of (view (db_handle None) shop) 1 = Some 5"
    by (simp add: db_handle_def stock_of_def shop_tables_def)
  have s7: "stock_of (view (db_handle None) shop) 7 = None"
    by (simp add: db_handle_def stock_of_def shop_tables_def)
  show ?thesis
    using deductProductStock_conditional [OF f d, of 1 3]
          deductProductStock_conditional [OF f d, of 1 6]
          deductProductStock_conditional [OF f d, of 7 1]
    by (simp add: s1 s7) (simp add: db_handle_def)
qed

lemma decrement_calls_append:
  "decrement_calls i (xs @ ys) c w =
     (case decrement_calls i xs c w of
        (rs, w1) \<Rightarrow> (case decrement_calls i ys c w1 of (rs', w2) \<Rightarrow> (rs @ rs', w2)))"
  by (induction xs arbitrary: w) (auto split: prod.splits)

text \<open>
  C3. For a product whose stock \<open>S\<close> is not negative and any sequence of
  \<open>deductProductStock\<close> calls against it (whatever the server refuses along the way),
  the quantities of the successful calls add up to at most \<open>S\<close>, and the stock left is
  \<open>S\<close> minus that sum, so never below zero. The state a longer sequence passes through
  after its first calls is the state those calls alone leave (\<open>decrement_calls_append\<close>),
  so this holds at each moment in between.
\<close>

theorem stock_never_negative:
  assumes "distinct (map p_id (products (view (db_handle c) w)))"
      and "stock_of (view (db_handle c) w) i = Some S"
      and "0 \<le> S"
  shows "successful_total qs (fst (decrement_calls i qs c w)) \<le> S
       \<and> stock_of (view (db_handle c) (snd (decrement_calls i qs c w))) i
           = Some (S - successful_total qs (fst (decrement_calls i qs c w)))
       \<and> 0 \<le> S - successful_total qs (fst (decrement_calls i qs c w))"
proof -
  have "successful_total qs (fst (decrement_calls i qs c w)) \<le> S
       \<and> stock_of (view (db_handle c) (snd (decrement_calls i qs c w))) i
           = Some (S - successful_total qs (fst (decrement_calls i qs c w)))"
    using assms
  proof (induction qs arbitrary: w S)
    case Nil
    then show ?case by simp
  next
    case (Cons q qs)
    obtain r w1 where step: "deductProductStock i q c w = (r, w1)"
      by (cases "deductProductStock i q c w")
    obtain rs w2 where rest: "decrement_calls i qs c w1 = (rs, w2)"
      by (cases "decrement_calls i qs c w1")
    note st = deduct_step [OF Cons.prems(1) Cons.prems(2) step]
    show ?case
    proof (cases r)
      case (Inl e)
      with st have "stock_of (view (db_handle c) w1) i = Some S" by simp
      with Cons.IH [of w1 S] st Cons.prems(3)
      have "successful_total qs rs \<le> S
          \<and> stock_of (view (db_handle c) w2) i = Some (S - successful_total qs rs)"
        by (simp add: rest)
      then show ?thesis by (simp add: step rest Inl)
    next
      case (Inr ok)
      with st have q: "q \<le> S" and s1: "stock_of (view (db_handle c) w1) i = Some (S - q)"
        by simp_all
      with Cons.IH [of w1 "S - q"] st
      have "successful_total qs rs \<le> S - q
          \<and> stock_of (view (db_handle c) w2) i = Some (S - q - successful_total qs rs)"
        by (simp add: rest)
      then show ?thesis by (simp add: step rest Inr algebra_simps)
    qed
  qed
  then show ?thesis by simp
qed

theorem stock_never_negative_witness:
  "fst (decrement_calls 1 [3, 3, 2] None shop)
     = [Inr True, Inl (AppError (insufficient_stock_message 1)), Inr True]
   \<and> successful_total [3, 3, 2] (fst (decrement_calls 1 [3, 3, 2] None shop)) \<le> 5
   \<and> stock_of (view Pool (snd (decrement_calls 1 [3, 3, 2] None shop))) 1
       = Some (5 - successful_total [3, 3, 2] (fst (decrement_calls 1 [3, 3, 2] None shop)))
   \<and> 0 \<le> 5 - successful_total [3, 3, 2] (fst (decrement_calls 1 [3, 3, 2] None shop))"
proof -
  have d: "distinct (map p_id (products (view (db_handle None) shop)))"
    by (simp add: db_handle_def shop_tables_def)
  have s1: "stock_of (view (db_handle None) shop) 1 = Some 5"
    by (simp add: db_handle_def stock_of_def shop_tables_def)
  have r: "fst (decrement_calls 1 [3, 3, 2] None shop)
             = [Inr True, Inl (AppError (insufficient_stock_message 1)), Inr True]"
    by (simp add: deductProductStock_def query_def driver_call_def view_def apply_change_def
          db_handle_def update_stock_def shop_def shop_tables_def)
  show ?thesis
    using stock_never_negative [OF d s1, of "[3, 3, 2]"] r by (simp add: db_handle_def)
qed

section \<open>Claims about the cart\<close>

lemma committed_faults [simp]: "committed (w\<lparr>faults := fs\<rparr>) = committed w"
  by simp

lemma committed_apply_pool:
  "committed (apply_change Pool f w) = f (committed w)"
  by (simp add: apply_change_def)

lemma query_pool_refused:
  "faults w = Some m # fs \<Longrightarrow> query h stmt w = (Inl (DbError m), w\<lparr>faults := fs\<rparr>)"
  by (simp add: query_def driver_call_def)

lemma query_pool_passed:
  "faults w = None # fs \<Longrightarrow>
   query h stmt w = (Inr (fst (stmt (view h w))), apply_change h (\<lambda>t. snd (stmt t)) (w\<lparr>faults := fs\<rparr>))"
  by (simp add: query_def driver_call_def)

lemma update_owned_line_unmatched:
  assumes "\<not> (\<exists>c \<in> set (cart_items t). ci_id c = i \<and> ci_user_id c = u)"
  shows "update_owned_line q i u t = (0, t)"
proof -
  from assms have "filter (\<lambda>c. ci_id c = i \<and> ci_user_id c = u) (cart_items t) = []"
    by (auto simp: filter_empty_conv)
  moreover from assms
  have "map (\<lambda>c. if ci_id c = i \<and> ci_user_id c = u then c\<lparr>ci_quantity := q\<rparr> else c)
          (cart_items t) = cart_items t"
    by (intro map_idI) auto
  ultimately show ?thesis by (simp add: update_owned_line_def)
qed

lemma delete_owned_line_unmatched:
  assumes "\<not> (\<exists>c \<in> set (cart_items t). ci_id c = i \<and> ci_user_id c = u)"
  shows "delete_owned_line i u t = (0, t)"
proof -
  from assms have "filter (\<lambda>c. ci_id c = i \<and> ci_user_id c = u) (cart_items t) = []"
    by (auto simp: filter_empty_conv)
  moreover from assms
  have "filter (\<lambda>c. \<not> (ci_id c = i \<and> ci_user_id c = u)) (cart_items t) = cart_items t"
    by (auto simp: filter_id_conv)
  ultimately show ?thesis by (simp add: delete_owned_line_def)
qed

lemma query_unmatched:
  assumes "stmt (committed w) = (0, committed w)"
  shows "fst (query Pool stmt w)
           = (case faults w of Some m # fs \<Rightarrow> Inl (DbError m) | _ \<Rightarrow> Inr 0)
       \<and> committed (snd (query Pool stmt w)) = committed w"
proof (cases "faults w")
  case Nil
  then show ?thesis
    using assms by (simp add: query_no_faults committed_apply_pool view_def)
next
  case (Cons a fs)
  then show ?thesis
    using assms
    by (cases a) (simp_all add: query_pool_refused query_pool_passed committed_apply_pool view_def)
qed

text \<open>
  C8. When no cart line has the given id and belongs to the given user (the line is
  absent, or it is another user's), \<open>updateCartItemQuantity\<close> and \<open>removeCartItem\<close>
  both throw and leave the committed tables as they were: the error is the not-found
  error, unless the server refused the statement, in which case it is the driver's own.
  Neither succeeds.
\<close>

theorem cart_ownership_scoping:
  assumes "\<not> (\<exists>c \<in> set (cart_items (committed w)). ci_id c = cartItemId \<and> ci_user_id c = userId)"
  shows "fst (updateCartItemQuantity cartItemId userId quantity w)
           = Inl (case faults w of Some m # fs \<Rightarrow> DbError m | _ \<Rightarrow> AppError not_found_message)
       \<and> committed (snd (updateCartItemQuantity cartItemId userId quantity w)) = committed w
       \<and> fst (removeCartItem cartItemId userId w)
           = Inl (case faults w of Some m # fs \<Rightarrow> DbError m | _ \<Rightarrow> AppError not_found_message)
       \<and> committed (snd (removeCartItem cartItemId userId w)) = committed w"
proof -
  have u: "update_owned_line quantity cartItemId userId (committed w) = (0, committed w)"
    using assms by (rule update_owned_line_unmatched)
  have d: "delete_owned_line cartItemId userId (committed w) = (0, committed w)"
    using assms by (rule delete_owned_line_unmatched)
  have "fst (updateCartItemQuantity cartItemId userId quantity w)
           = Inl (case faults w of Some m # fs \<Rightarrow> DbError m | _ \<Rightarrow> AppError not_found_message)
       \<and> committed (snd (updateCartItemQuantity cartItemId userId quantity w)) = committed w"
    using query_unmatched [of "update_owned_line quantity cartItemId userId" w, OF u]
    by (cases "query Pool (update_owned_line quantity cartItemId userId) w")
       (auto simp: updateCartItemQuantity_def split: list.splits option.splits sum.splits)
  moreover
  have "fst (removeCartItem cartItemId userId w)
           = Inl (case faults w of Some m # fs \<Rightarrow> DbError m | _ \<Rightarrow> AppError not_found_message)
       \<and> committed (snd (removeCartItem cartItemId userId w)) = committed w"
    using query_unmatched [of "delete_owned_line cartItemId userId" w, OF d]
    by (cases "query Pool (delete_owned_line cartItemId userId) w")
       (auto simp: removeCartItem_def split: list.splits option.splits sum.splits)
  ultimately show ?thesis by simp
qed

theorem cart_ownership_scoping_witness:
  "fst (updateCartItemQuantity 3 1 9 shop) = Inl (AppError not_found_message)
   \<and> committed (snd (updateCartItemQuantity 3 1 9 shop)) = committed shop
   \<and> fst (removeCartItem 3 1 shop) = Inl (AppError not_found_message)
   \<and> committed (snd (removeCartItem 3 1 shop)) = committed shop"
proof -
  have "\<not> (\<exists>c \<in> set (cart_items (committed shop)). ci_id c = 3 \<and> ci_user_id c = 1)"
    by (simp add: shop_def shop_tables_def)
  from cart_ownership_scoping [OF this, of 9] show ?thesis
    by (simp add: shop_def)
qed

lemma filter_map_keeps:
  assumes "\<And>x. P (f x) = P x"
  shows "filter P (map f xs) = map f (filter P xs)"
  using assms by (induction xs) auto

lemma addItem_inserts:
  assumes "faults w = []"
      and "filter (\<lambda>c. ci_user_id c = u \<and> ci_product_id c = p) (cart_items (committed w)) = []"
  shows "addItem u p q w =
           (Inr (''Product added to cart successfully.'', next_cart_item_id w),
            apply_change Pool
              (\<lambda>t. t\<lparr>cart_items := cart_items t @
                     [\<lparr>ci_id = next_cart_item_id w, ci_user_id = u, ci_product_id = p,
                       ci_quantity = q\<rparr>]\<rparr>)
              (w\<lparr>next_cart_item_id := next_cart_item_id w + 1\<rparr>))"
  using assms
  by (simp add: addItem_def query_no_faults select_cart_line_def view_def apply_change_def
        insert_cart_item_def driver_call_no_faults Let_def)

lemma addItem_updates:
  assumes "faults w = []"
      and "filter (\<lambda>c. ci_user_id c = u \<and> ci_product_id c = p) (cart_items (committed w)) = c # cs"
  shows "addItem u p q w =
           (Inr (''Cart item quantity updated successfully.'', ci_id c),
            apply_change Pool (\<lambda>t. snd (update_cart_line (ci_quantity c + q) (ci_id c) t)) w)"
proof -
  have 1: "query Pool (select_cart_line u p) w = (Inr ((ci_id c, ci_quantity c) # map (\<lambda>c. (ci_id c, ci_quantity c)) cs), apply_change Pool (\<lambda>t. t) w)"
    using assms by (simp add: query_no_faults select_cart_line_def view_def)
  have 2: "apply_change Pool (\<lambda>t. t) w = w"
    by (simp add: apply_change_def)
  show ?thesis
    using assms(1) by (simp add: addItem_def 1 2 query_no_faults Let_def)
qed

text \<open>
  C7. With every statement executed: starting from a cart that has no line for the user
  and the product, two calls of \<open>addItem\<close> with quantities \<open>qa\<close> and \<open>qb\<close> leave exactly
  one line for the pair, with quantity \<open>qa + qb\<close>; and when the pair already has its
  line, \<open>addItem\<close> adds the quantity to that line and inserts no row.
\<close>

theorem addItem_upsert:
  fixes u p qa qb q :: int and w :: world
  defines "mine \<equiv> (\<lambda>c. ci_user_id c = u \<and> ci_product_id c = p)"
  assumes "faults w = []"
  shows "(filter mine (cart_items (committed w)) = [] \<longrightarrow>
            filter mine (cart_items (committed (snd (addItem u p qb (snd (addItem u p qa w))))))
              = [\<lparr>ci_id = next_cart_item_id w, ci_user_id = u, ci_product_id = p,
                  ci_quantity = qa + qb\<rparr>])
       \<and> (\<forall>c. filter mine (cart_items (committed w)) = [c] \<longrightarrow>
            filter mine (cart_items (committed (snd (addItem u p q w))))
              = [c\<lparr>ci_quantity := ci_quantity c + q\<rparr>]
            \<and> length (cart_items (committed (snd (addItem u p q w))))
              = length (cart_items (committed w)))"
proof (intro conjI impI allI)
  assume empty: "filter mine (cart_items (committed w)) = []"
  let ?i = "next_cart_item_id w"
  let ?row = "\<lparr>ci_id = ?i, ci_user_id = u, ci_product_id = p, ci_quantity = qa\<rparr>"
  let ?w1 = "snd (addItem u p qa w)"
  have w1: "?w1 = apply_change Pool (\<lambda>t. t\<lparr>cart_items := cart_items t @ [?row]\<rparr>)
                    (w\<lparr>next_cart_item_id := ?i + 1\<rparr>)"
    using addItem_inserts [OF assms(2), of u p qa] empty by (simp add: mine_def)
  have f1: "faults ?w1 = []"
    using assms(2) by (simp add: w1 apply_change_def)
  have c1: "cart_items (committed ?w1) = cart_items (committed w) @ [?row]"
    by (simp add: w1 apply_change_def)
  have m1: "filter mine (cart_items (committed ?w1)) = [?row]"
    using empty by (simp add: c1 mine_def)
  have w2: "snd (addItem u p qb ?w1)
              = apply_change Pool (\<lambda>t. snd (update_cart_line (qa + qb) ?i t)) ?w1"
    using addItem_updates [OF f1, of u p ?row "[]" qb] m1 by (simp add: mine_def)
  let ?f = "\<lambda>x. if ci_id x = ?i then x\<lparr>ci_quantity := qa + qb\<rparr> else x"
  have "filter mine (map ?f (cart_items (committed ?w1)))
          = map ?f (filter mine (cart_items (committed ?w1)))"
    by (rule filter_map_keeps) (simp add: mine_def)
  then show "filter mine (cart_items (committed (snd (addItem u p qb ?w1))))
          = [\<lparr>ci_id = ?i, ci_user_id = u, ci_product_id = p, ci_quantity = qa + qb\<rparr>]"
    by (simp add: w2 committed_apply_pool update_cart_line_def m1)
next
  fix c
  assume one: "filter mine (cart_items (committed w)) = [c]"
  have w1: "snd (addItem u p q w)
              = apply_change Pool (\<lambda>t. snd (update_cart_line (ci_quantity c + q) (ci_id c) t)) w"
    using addItem_updates [OF assms(2), of u p c "[]" q] one by (simp add: mine_def)
  let ?f = "\<lambda>x. if ci_id x = ci_id c then x\<lparr>ci_quantity := ci_quantity c + q\<rparr> else x"
  have "filter mine (map ?f (cart_items (committed w)))
          = map ?f (filter mine (cart_items (committed w)))"
    by (rule filter_map_keeps) (simp add: mine_def)
  then show "filter mine (cart_items (committed (snd (addItem u p q w))))
          = [c\<lparr>ci_quantity := ci_quantity c + q\<rparr>]"
    by (simp add: w1 committed_apply_pool update_cart_line_def one)
  show "length (cart_items (committed (snd (addItem u p q w))))
          = length (cart_items (committed w))"
    by (simp add: w1 committed_apply_pool update_cart_line_def)
qed

theorem addItem_upsert_witness:
  "filter (\<lambda>c. ci_user_id c = 2 \<and> ci_product_id c = 2)
     (cart_items (committed (snd (addItem 2 2 4 (snd (addItem 2 2 1 shop))))))
     = [\<lparr>ci_id = 4, ci_user_id = 2, ci_product_id = 2, ci_quantity = 5\<rparr>]
   \<and> filter (\<lambda>c. ci_user_id c = 1 \<and> ci_product_id c = 1)
       (cart_items (committed (snd (addItem 1 1 2 shop))))
     = [\<lparr>ci_id = 1, ci_user_id = 1, ci_product_id = 1, ci_quantity = 5\<rparr>]
   \<and> length (cart_items (committed (snd (addItem 1 1 2 shop)))) = 3"
proof -
  have f: "faults shop = []" by (simp add: shop_def)
  have a: "filter (\<lambda>c. ci_user_id c = 2 \<and> ci_product_id c = 2) (cart_items (committed shop)) = []"
    by (simp add: shop_def shop_tables_def)
  have b: "filter (\<lambda>c. ci_user_id c = 1 \<and> ci_product_id c = 1) (cart_items (committed shop))
             = [\<lparr>ci_id = 1, ci_user_id = 1, ci_product_id = 1, ci_quantity = 3\<rparr>]"
    by (simp add: shop_def shop_tables_def)
  have n: "next_cart_item_id shop = 4" "length (cart_items (committed shop)) = 3"
    by (simp_all add: shop_def shop_tables_def)
  from addItem_upsert [OF f, where u = 2 and p = 2 and qa = 1 and qb = 4] a n
  have 1: "filter (\<lambda>c. ci_user_id c = 2 \<and> ci_product_id c = 2)
     (cart_items (committed (snd (addItem 2 2 4 (snd (addItem 2 2 1 shop))))))
     = [\<lparr>ci_id = 4, ci_user_id = 2, ci_product_id = 2, ci_quantity = 5\<rparr>]"
    by simp
  from addItem_upsert [OF f, where u = 1 and p = 1 and q = 2] b n
  have 2: "filter (\<lambda>c. ci_user_id c = 1 \<and> ci_product_id c = 1)
       (cart_items (committed (snd (addItem 1 1 2 shop))))
     = [\<lparr>ci_id = 1, ci_user_id = 1, ci_product_id = 1, ci_quantity = 5\<rparr>]
     \<and> length (cart_items (committed (snd (addItem 1 1 2 shop)))) = 3"
    by simp
  from 1 2 show ?thesis by simp
qed

section \<open>Claims about placing an order\<close>

lemma insert_order_item_conn:
  "committed (snd (insert_order_item Connection a b c d w)) = committed w"
  "products (working (snd (insert_order_item Connection a b c d w))) = products (working w)"
  "faults w = [] \<Longrightarrow> faults (snd (insert_order_item Connection a b c d w)) = []"
  "faults w = [] \<Longrightarrow> \<exists>k. fst (insert_order_item Connection a b c d w) = Inr k"
  by (simp_all add: insert_order_item_def driver_call_def apply_change_def Let_def
        split: list.splits option.splits)

lemma deduct_conn:
  "committed (snd (deductProductStock i q (Some Connection) w)) = committed w"
  "map p_id (products (working (snd (deductProductStock i q (Some Connection) w))))
     = map p_id (products (working w))"
  "faults w = [] \<Longrightarrow> faults (snd (deductProductStock i q (Some Connection) w)) = []"
  by (simp_all add: deductProductStock_def db_handle_def query_def driver_call_def view_def
        apply_change_def update_stock_def comp_def Let_def
        split: list.splits option.splits)

lemma order_lines_frame:
  "committed (snd (order_lines oid xs w)) = committed w
   \<and> map p_id (products (working (snd (order_lines oid xs w)))) = map p_id (products (working w))
   \<and> (faults w = [] \<longrightarrow> faults (snd (order_lines oid xs w)) = [])"
proof (induction xs arbitrary: w)
  case Nil
  then show ?case by simp
next
  case (Cons x xs)
  obtain r1 w1 where 1: "insert_order_item Connection oid (item_product_id x) (item_quantity x)
             (item_product_price x) w = (r1, w1)"
    by (cases "insert_order_item Connection oid (item_product_id x) (item_quantity x)
             (item_product_price x) w")
  obtain r2 w2 where 2: "deductProductStock (item_product_id x) (item_quantity x) (Some Connection) w1 = (r2, w2)"
    by (cases "deductProductStock (item_product_id x) (item_quantity x) (Some Connection) w1")
  have a: "committed w1 = committed w" "products (working w1) = products (working w)"
          "faults w = [] \<longrightarrow> faults w1 = []"
    using insert_order_item_conn [where a = oid and b = "item_product_id x" and c = "item_quantity x" and d = "item_product_price x" and w = w]
    by (simp_all add: 1)
  have b: "committed w2 = committed w1"
          "map p_id (products (working w2)) = map p_id (products (working w1))"
          "faults w1 = [] \<longrightarrow> faults w2 = []"
    using deduct_conn [where i = "item_product_id x" and q = "item_quantity x" and w = w1]
    by (simp_all add: 2)
  show ?case
    using a b Cons.IH [of w2]
    by (cases r1; cases r2) (simp_all add: 1 2)
qed

lemma order_lines_append:
  "order_lines oid (xs @ ys) w =
     (case order_lines oid xs w of
        (Inl e, w1) \<Rightarrow> (Inl e, w1)
      | (Inr u, w1) \<Rightarrow> order_lines oid ys w1)"
  by (induction xs arbitrary: w) (auto split: prod.splits sum.splits)

lemma insufficient_stock_message_nonempty: "insufficient_stock_message i \<noteq> []"
  by (simp add: insufficient_stock_message_def)

lemma deduct_unmatched:
  assumes "faults w = []"
      and "distinct (map p_id (products (view (db_handle c) w)))"
      and "\<not> (\<exists>s. stock_of (view (db_handle c) w) i = Some s \<and> q \<le> s)"
  shows "fst (deductProductStock i q c w) = Inl (AppError (insufficient_stock_message i))"
proof -
  have "fst (update_stock q i (view (db_handle c) w)) = 0"
    using fst_update_stock_zero [OF assms(2), of q i] assms(3) by simp
  then show ?thesis
    using assms(1) by (simp add: deductProductStock_def query_no_faults)
qed

lemma order_line_short:
  assumes "faults w = []"
      and "distinct (map p_id (products (working w)))"
      and "stock_of (working w) (item_product_id x) = Some s"
      and "s < item_quantity x"
  shows "\<exists>w1. order_lines oid (x # xs) w
                = (Inl (AppError (insufficient_stock_message (item_product_id x))), w1)"
proof -
  obtain r1 w1 where 1: "insert_order_item Connection oid (item_product_id x) (item_quantity x)
             (item_product_price x) w = (r1, w1)"
    by (cases "insert_order_item Connection oid (item_product_id x) (item_quantity x)
             (item_product_price x) w")
  have a: "products (working w1) = products (working w)" "faults w1 = []" "\<exists>k. r1 = Inr k"
    using insert_order_item_conn [where a = oid and b = "item_product_id x"
            and c = "item_quantity x" and d = "item_product_price x" and w = w] assms(1)
    by (simp_all add: 1)
  then obtain k where k: "r1 = Inr k" by blast
  have v: "view (db_handle (Some Connection)) w1 = working w1"
    by (simp add: db_handle_def view_def)
  have st: "stock_of (working w1) (item_product_id x) = Some s"
    using assms(3) a(1) by (simp add: stock_of_def)
  have d: "distinct (map p_id (products (view (db_handle (Some Connection)) w1)))"
    using assms(2) a(1) by (simp add: v)
  have "fst (deductProductStock (item_product_id x) (item_quantity x) (Some Connection) w1)
          = Inl (AppError (insufficient_stock_message (item_product_id x)))"
    using assms(4) by (intro deduct_unmatched [OF a(2) d]) (simp add: v st)
  then show ?thesis
    by (cases "deductProductStock (item_product_id x) (item_quantity x) (Some Connection) w1")
       (simp add: 1 k)
qed

lemmas run_defs = createOrder_def createOrder_try_def respond_failure_def rollback_def
  getConnection_def beginTransaction_def commit_def insert_order_def insert_order_item_def
  deductProductStock_def clearCart_def query_def driver_call_def view_def apply_change_def
  db_handle_def update_stock_def delete_cart_def Let_def

lemma faults_apply_change [simp]: "faults (apply_change h f w) = faults w"
  by (simp add: apply_change_def split: handle.splits)

text \<open>
  C1. A placement whose request is valid and whose statements the server all executes:
  when the lines before the Nth go through and the Nth line's product has less in
  stock than the line asks for, the reply is the 500 with the insufficient-stock message
  for that product, and the committed tables are exactly those before the attempt (no
  order row, no order line, every stock as it was); the connection's own view is reset
  to them by the rollback.
\<close>

theorem insufficient_stock_rolls_back:
  fixes req :: order_request and w reached :: world and it :: item
    and stringify :: "json \<Rightarrow> string" and amount :: decimal and addr :: json
  defines "opened \<equiv> snd (insert_order Connection (req_user_id req) amount (stringify addr)
                             ''pending'' (snd (beginTransaction w)))"
  assumes "body_items req = Some (pre @ it # post)"
      and "body_totalAmount req = Some amount"
      and "body_shippingAddress req = Some addr"
      and "\<not> falsy addr"
      and "faults w = []"
      and "distinct (map p_id (products (committed w)))"
      and "order_lines (next_order_id w) pre opened = (Inr (), reached)"
      and "stock_of (working reached) (item_product_id it) = Some s"
      and "s < item_quantity it"
  shows "fst (createOrder stringify req w)
           = Response 500 (Message (insufficient_stock_message (item_product_id it)))
       \<and> committed (snd (createOrder stringify req w)) = committed w
       \<and> working (snd (createOrder stringify req w)) = committed w"
proof -
  let ?oid = "next_order_id w"
  let ?msg = "insufficient_stock_message (item_product_id it)"
  have g: "getConnection w = (Inr Connection, w)"
    using assms(6) by (simp add: getConnection_def driver_call_no_faults)
  have b: "beginTransaction w = (Inr (), w\<lparr>working := committed w\<rparr>)"
    using assms(6) by (simp add: beginTransaction_def driver_call_no_faults)
  have io: "insert_order Connection (req_user_id req) amount (stringify addr) ''pending''
              (w\<lparr>working := committed w\<rparr>) = (Inr ?oid, opened)"
    using assms(6) by (simp add: opened_def b insert_order_def driver_call_no_faults Let_def)
  have o: "faults opened = []" "committed opened = committed w"
          "products (working opened) = products (committed w)"
    using assms(6)
    by (simp_all add: opened_def b insert_order_def driver_call_no_faults Let_def apply_change_def)
  from order_lines_frame [of ?oid pre opened] assms(8) o
  have r: "faults reached = []" "distinct (map p_id (products (working reached)))"
    using assms(7) by simp_all
  from order_line_short [OF r assms(9) assms(10), of ?oid post]
  obtain w4 where w4: "order_lines ?oid (it # post) reached = (Inl (AppError ?msg), w4)"
    by blast
  have all: "order_lines ?oid (pre @ it # post) opened = (Inl (AppError ?msg), w4)"
    by (simp add: order_lines_append assms(8) w4 del: order_lines.simps)
  from order_lines_frame [of ?oid "pre @ it # post" opened]
  have c4: "committed w4 = committed w" and f4: "faults w4 = []"
    by (simp_all add: all o)
  have t: "createOrder_try stringify (req_user_id req) (pre @ it # post) amount addr w
             = (Inl (AppError ?msg), w4)"
    by (simp add: createOrder_try_def b io all)
  have rb: "rollback w4 = (Inr (), w4\<lparr>working := committed w4\<rparr>)"
    using f4 by (simp add: rollback_def driver_call_no_faults)
  show ?thesis
    using assms(2-5) c4
    by (simp add: createOrder_def g t rb respond_failure_def
          insufficient_stock_message_nonempty)
qed

theorem insufficient_stock_rolls_back_witness:
  "fst (createOrder shop_stringify shop_short_order shop)
     = Response 500 (Message (insufficient_stock_message 1))
   \<and> committed (snd (createOrder shop_stringify shop_short_order shop)) = committed shop
   \<and> working (snd (createOrder shop_stringify shop_short_order shop)) = committed shop"
proof -
  let ?line = "\<lparr>item_product_id = 2, item_quantity = 1, item_product_price = 9900\<rparr>"
  let ?short = "\<lparr>item_product_id = 1, item_quantity = 6, item_product_price = 25000\<rparr>"
  let ?opened = "snd (insert_order Connection (req_user_id shop_short_order) 159900
                    (shop_stringify (JObj [])) ''pending'' (snd (beginTransaction shop)))"
  let ?reached = "snd (order_lines (next_order_id shop) [?line] ?opened)"
  have 1: "body_items shop_short_order = Some ([?line] @ ?short # [])"
    and 2: "body_totalAmount shop_short_order = Some 159900"
    and 3: "body_shippingAddress shop_short_order = Some (JObj [])"
    by (simp_all add: shop_short_order_def)
  have 4: "\<not> falsy (JObj [])" by simp
  have 5: "faults shop = []" by (simp add: shop_def)
  have 6: "distinct (map p_id (products (committed shop)))"
    by (simp add: shop_def shop_tables_def)
  have "fst (order_lines (next_order_id shop) [?line] ?opened) = Inr ()"
    by (simp add: run_defs shop_def shop_tables_def shop_short_order_def)
  then have 7: "order_lines (next_order_id shop) [?line] ?opened = (Inr (), ?reached)"
    by (metis prod.collapse)
  have 8: "stock_of (working ?reached) (item_product_id ?short) = Some 5"
    by (simp add: run_defs stock_of_def shop_def shop_tables_def shop_short_order_def)
  have 9: "(5::int) < item_quantity ?short" by simp
  from insufficient_stock_rolls_back [where stringify = shop_stringify and addr = "JObj []"
         and amount = 159900 and req = shop_short_order and w = shop, OF 1 2 3 4 5 6 7 8 9]
  show ?thesis by simp
qed

text \<open>
  C6, as the code has it. The claim says every failure other than the stock failure
  answers with a generic message; the handler answers with the error's own message
  whenever it has one. Here the server refuses the INSERT of the order header, after the
  transaction has begun, and the caller reads the driver's message, not the generic one.
\<close>

theorem createOrder_failure_message_cex:
  "fst (createOrder shop_stringify shop_order shop_deadlock)
     = Response 500
         (Message ''Deadlock found when trying to get lock; try restarting transaction'')
   \<and> fst (createOrder shop_stringify shop_order shop_deadlock)
     \<noteq> Response 500 (Message ''Failed to place order.'')"
  by (simp add: run_defs shop_deadlock_def shop_def shop_tables_def shop_order_def
        shop_stringify_def)

text \<open>
  When the rollback itself is refused, the handler answers nothing: its promise rejects
  in the \<open>catch\<close> block, before \<open>res.status(500)\<close>.
\<close>

lemma createOrder_unanswered:
  assumes "body_items req = Some its" and "its \<noteq> []"
      and "body_totalAmount req = Some amount"
      and "body_shippingAddress req = Some addr" and "\<not> falsy addr"
      and "getConnection w = (Inr c, w1)"
      and "createOrder_try stringify (req_user_id req) its amount addr w1 = (Inl e, w2)"
      and "rollback w2 = (Inl rejected, w3)"
  shows "createOrder stringify req w = (NoResponse, w3)"
  using assms by (simp add: createOrder_def)

lemma insufficient_stock_message_not_generic:
  "insufficient_stock_message i \<noteq> ''Failed to place order.''"
  by (simp add: insufficient_stock_message_def)

text \<open>
  C6, amended. For every failure of a valid placement after the connection is taken
  whose rollback completes, the caller-visible message of the 500 is the failing
  error's own message, and \<open>Failed to place order.\<close> only when that message is empty. So
  the caller reads the insufficient-stock message for a product exactly when that is the
  error's message, as it is for the error \<open>deductProductStock\<close> throws; the message of
  any other failure reaches the caller as it is, not replaced by a generic one.
\<close>

theorem createOrder_failure_message:
  assumes "body_items req = Some its" and "its \<noteq> []"
      and "body_totalAmount req = Some amount"
      and "body_shippingAddress req = Some addr" and "\<not> falsy addr"
      and "getConnection w = (Inr c, w1)"
      and "createOrder_try stringify (req_user_id req) its amount addr w1 = (Inl e, w2)"
      and "rollback w2 = (Inr (), w3)"
  shows "fst (createOrder stringify req w)
           = Response 500
               (Message (if message e = [] then ''Failed to place order.'' else message e))
       \<and> (\<forall>i. (fst (createOrder stringify req w)
                  = Response 500 (Message (insufficient_stock_message i)))
                = (message e = insufficient_stock_message i))"
proof -
  have reply: "fst (createOrder stringify req w)
           = Response 500
               (Message (if message e = [] then ''Failed to place order.'' else message e))"
    using assms by (simp add: createOrder_def respond_failure_def)
  have "(fst (createOrder stringify req w)
           = Response 500 (Message (insufficient_stock_message i)))
        = (message e = insufficient_stock_message i)" for i
  proof (cases "message e = []")
    case True
    then show ?thesis
      using insufficient_stock_message_nonempty [of i]
            insufficient_stock_message_not_generic [of i]
      by (auto simp: reply)
  next
    case False
    then show ?thesis by (auto simp: reply)
  qed
  with reply show ?thesis by simp
qed

theorem createOrder_failure_message_witness:
  "fst (createOrder shop_stringify shop_order shop_deadlock)
     = Response 500
         (Message ''Deadlock found when trying to get lock; try restarting transaction'')
   \<and> fst (createOrder shop_stringify shop_short_order shop)
     = Response 500 (Message (insufficient_stock_message 1))"
proof -
  let ?m = "''Deadlock found when trying to get lock; try restarting transaction''"
  let ?w1 = "snd (getConnection shop_deadlock)"
  let ?its = "[\<lparr>item_product_id = 1, item_quantity = 3, item_product_price = 25000\<rparr>,
               \<lparr>item_product_id = 2, item_quantity = 1, item_product_price = 9900\<rparr>]"
  let ?attempt = "createOrder_try shop_stringify (req_user_id shop_order) ?its 84900 (JObj []) ?w1"
  have 1: "body_items shop_order = Some ?its" and 2: "?its \<noteq> []"
    and 3: "body_totalAmount shop_order = Some 84900"
    and 4: "body_shippingAddress shop_order = Some (JObj [])" and 5: "\<not> falsy (JObj [])"
    by (simp_all add: shop_order_def)
  have 6: "getConnection shop_deadlock = (Inr Connection, ?w1)"
    by (simp add: getConnection_def driver_call_def shop_deadlock_def shop_def)
  have "fst ?attempt = Inl (DbError ?m)"
    by (simp add: run_defs shop_deadlock_def shop_def shop_tables_def shop_order_def
          shop_stringify_def)
  then have 7: "?attempt = (Inl (DbError ?m), snd ?attempt)"
    by (metis prod.collapse)
  have "fst (rollback (snd ?attempt)) = Inr ()"
    by (simp add: run_defs shop_deadlock_def shop_def shop_tables_def shop_order_def
          shop_stringify_def)
  then have 8: "rollback (snd ?attempt) = (Inr (), snd (rollback (snd ?attempt)))"
    by (metis prod.collapse)
  from createOrder_failure_message [where stringify = shop_stringify and addr = "JObj []",
         OF 1 2 3 4 5 6 7 8]
  have deadlock: "fst (createOrder shop_stringify shop_order shop_deadlock)
     = Response 500 (Message ?m)"
    by simp
  let ?v1 = "snd (getConnection shop)"
  let ?lines = "[\<lparr>item_product_id = 2, item_quantity = 1, item_product_price = 9900\<rparr>,
                 \<lparr>item_product_id = 1, item_quantity = 6, item_product_price = 25000\<rparr>]"
  let ?short = "createOrder_try shop_stringify (req_user_id shop_short_order) ?lines 159900
                  (JObj []) ?v1"
  have a1: "body_items shop_short_order = Some ?lines" and a2: "?lines \<noteq> []"
    and a3: "body_totalAmount shop_short_order = Some 159900"
    and a4: "body_shippingAddress shop_short_order = Some (JObj [])"
    by (simp_all add: shop_short_order_def)
  have a6: "getConnection shop = (Inr Connection, ?v1)"
    by (simp add: getConnection_def driver_call_def shop_def)
  have "fst ?short = Inl (AppError (insufficient_stock_message 1))"
    by (simp add: run_defs shop_def shop_tables_def shop_short_order_def shop_stringify_def)
  then have a7: "?short = (Inl (AppError (insufficient_stock_message 1)), snd ?short)"
    by (metis prod.collapse)
  have "fst (rollback (snd ?short)) = Inr ()"
    by (simp add: run_defs shop_def shop_tables_def shop_short_order_def shop_stringify_def)
  then have a8: "rollback (snd ?short) = (Inr (), snd (rollback (snd ?short)))"
    by (metis prod.collapse)
  from createOrder_failure_message [where stringify = shop_stringify and addr = "JObj []",
         OF a1 a2 a3 a4 5 a6 a7 a8]
  have short: "fst (createOrder shop_stringify shop_short_order shop)
     = Response 500 (Message (insufficient_stock_message 1))"
    using insufficient_stock_message_nonempty [of 1] by simp
  from deadlock short show ?thesis by (intro conjI)
qed

text \<open>
  C2, at the failing input. The first user checks out the cart; the server executes
  every statement and then refuses the \<open>commit\<close>. \<open>clearCart\<close> ran through the pool,
  outside the transaction: the order, its lines and the stock changes are rolled back,
  and the user's cart lines are gone all the same.
\<close>

theorem cart_cleared_though_commit_failed:
  "fst (createOrder shop_stringify shop_order shop_commit_lost)
     = Response 500 (Message ''Connection lost: The server closed the connection.'')
   \<and> orders (committed (snd (createOrder shop_stringify shop_order shop_commit_lost))) = []
   \<and> order_items (committed (snd (createOrder shop_stringify shop_order shop_commit_lost))) = []
   \<and> products (committed (snd (createOrder shop_stringify shop_order shop_commit_lost)))
       = products (committed shop_commit_lost)
   \<and> filter (\<lambda>c. ci_user_id c = 1)
         (cart_items (committed (snd (createOrder shop_stringify shop_order shop_commit_lost))))
       = []
   \<and> length (filter (\<lambda>c. ci_user_id c = 1) (cart_items (committed shop_commit_lost))) = 2"
  by (simp add: run_defs shop_commit_lost_def shop_def shop_tables_def shop_order_def
        shop_stringify_def)

text \<open>
  The checks \<open>createOrder\<close> does make: a request with no items, an empty list of items,
  no total amount, or a missing or falsy shipping address is answered with a 400 and the
  world is left as it was.
\<close>

lemma createOrder_rejects:
  assumes "body_items req = None \<or> body_items req = Some []
         \<or> body_totalAmount req = None
         \<or> body_shippingAddress req = None
         \<or> (\<exists>a. body_shippingAddress req = Some a \<and> falsy a)"
  shows "\<exists>m. createOrder stringify req w = (Response 400 (Message m), w)"
  using assms by (auto simp: createOrder_def split: option.splits)

text \<open>
  C5, at the failing input. The quantities of the lines are not checked: a checkout
  whose one line asks for minus five of P1 is not rejected. The transaction runs, the
  order is placed with its line of minus five, and the stock of P1 goes from five to ten.
\<close>

theorem negative_quantity_is_accepted:
  "fst (createOrder shop_stringify shop_negative_order shop)
     = Response 201 (Placed ''Order placed successfully!'' 1)
   \<and> stock_of (committed shop) 1 = Some 5
   \<and> stock_of (committed (snd (createOrder shop_stringify shop_negative_order shop))) 1 = Some 10
   \<and> map oi_quantity
         (order_items (committed (snd (createOrder shop_stringify shop_negative_order shop))))
       = [- 5]"
  by (simp add: run_defs stock_of_def shop_def shop_tables_def shop_negative_order_def
        shop_stringify_def)

section \<open>Claims about the order history\<close>

lemma parse_address_expected:
  "fst (parse_address parse row out) = expected_address parse (r_shipping_address row)"
  by (simp add: parse_address_def expected_address_def split: column.splits option.splits)

lemma parse_address_log:
  "snd (parse_address parse row out) =
     (case r_shipping_address row of
        Text s \<Rightarrow> (case parse s of Some a \<Rightarrow> out
                              | None \<Rightarrow> out @ [(parse_failure_label (r_order_id row), s)])
      | Object a \<Rightarrow> out)"
  by (simp add: parse_address_def split: column.splits option.splits)

lemma push_line_keys:
  "map fst (map (\<lambda>(k, v). if k = i then (k, f v) else (k, v)) m) = map fst m"
  by (induction m) auto

lemma push_line_absent:
  "i \<notin> set (map fst m) \<Longrightarrow> map (\<lambda>(k, v). if k = i then (k, f v) else (k, v)) m = m"
  by (induction m) auto

lemma group_row_seen:
  assumes "r_order_id x \<in> set (map fst m)"
  shows "group_row parse pf (m, out) x
           = (map (\<lambda>(k, v). if k = r_order_id x
                      then (k, v\<lparr>v_items := v_items v @ [line_of pf x]\<rparr>) else (k, v)) m,
              out)"
  using assms by (simp add: group_row_def)

lemma group_row_new:
  assumes "r_order_id x \<notin> set (map fst m)"
  shows "group_row parse pf (m, out) x
           = (m @ [(r_order_id x, expected_view parse pf [x] x)],
              snd (parse_address parse x out))"
proof -
  have "map (\<lambda>(k, v). if k = r_order_id x
                then (k, v\<lparr>v_items := v_items v @ [line_of pf x]\<rparr>) else (k, v)) m = m"
    using assms by (rule push_line_absent)
  then show ?thesis
    using assms
    by (cases "parse_address parse x out")
       (simp add: group_row_def expected_view_def parse_address_expected [symmetric, of parse x out]
          del: set_map)
qed


lemma expected_view_snoc:
  "expected_view parse pf (xs @ [x]) r =
     (if r_order_id x = r_order_id r
      then (expected_view parse pf xs r)
             \<lparr>v_items := v_items (expected_view parse pf xs r) @ [line_of pf x]\<rparr>
      else expected_view parse pf xs r)"
  by (simp add: expected_view_def)

lemma fresh_key: "a \<notin> f ` S \<Longrightarrow> x \<in> S \<Longrightarrow> f x \<noteq> a"
  by (metis imageI)

lemma expected_view_fresh:
  "r_order_id x \<notin> r_order_id ` set xs \<Longrightarrow>
   expected_view parse pf (xs @ [x]) x = expected_view parse pf [x] x"
  by (auto simp: expected_view_def filter_empty_conv dest: fresh_key)

lemma find_snoc:
  "find P (xs @ [x]) = (case find P xs of Some r \<Rightarrow> Some r | None \<Rightarrow> if P x then Some x else None)"
  by (induction xs) auto

lemma find_holds: "find P xs = Some r \<Longrightarrow> P r \<and> r \<in> set xs"
  by (induction xs) (auto split: if_splits)

lemma group_rows_views:
  "foldl (group_row parse pf) ([], out0) rows = (m, out) \<Longrightarrow>
   distinct (map fst m) \<and> set (map fst m) = r_order_id ` set rows
   \<and> (\<forall>(k, v) \<in> set m. \<exists>r. find (\<lambda>x. r_order_id x = k) rows = Some r
          \<and> v = expected_view parse pf rows r)"
proof (induction rows arbitrary: m out rule: rev_induct)
  case Nil
  then show ?case by simp
next
  case (snoc x xs)
  obtain m0 o0 where f0: "foldl (group_row parse pf) ([], out0) xs = (m0, o0)"
    by (cases "foldl (group_row parse pf) ([], out0) xs")
  from snoc.IH [OF f0]
  have d0: "distinct (map fst m0)" and k0: "set (map fst m0) = r_order_id ` set xs"
    and v0: "\<forall>(k, v) \<in> set m0. \<exists>r. find (\<lambda>x. r_order_id x = k) xs = Some r
                \<and> v = expected_view parse pf xs r"
    by simp_all
  from snoc.prems f0 have step: "group_row parse pf (m0, o0) x = (m, out)"
    by simp
  let ?i = "r_order_id x"
  let ?push = "\<lambda>(k, v). if k = ?i then (k, v\<lparr>v_items := v_items v @ [line_of pf x]\<rparr>) else (k, v)"
  show ?case
  proof (cases "?i \<in> set (map fst m0)")
    case True
    with step have m: "m = map ?push m0"
      by (simp add: group_row_seen del: set_map)
    have keys: "map fst m = map fst m0"
      unfolding m by (rule push_line_keys)
    have "\<exists>r. find (\<lambda>y. r_order_id y = k) (xs @ [x]) = Some r
              \<and> v = expected_view parse pf (xs @ [x]) r"
      if kv: "(k, v) \<in> set m" for k v
    proof -
      from kv obtain v1 where in0: "(k, v1) \<in> set m0"
        and v: "v = (if k = ?i then v1\<lparr>v_items := v_items v1 @ [line_of pf x]\<rparr> else v1)"
        unfolding m by (auto split: if_splits)
      from v0 in0 obtain r where r: "find (\<lambda>y. r_order_id y = k) xs = Some r"
        and v1: "v1 = expected_view parse pf xs r"
        by blast
      from find_holds [OF r] have rk: "r_order_id r = k" by simp
      have "find (\<lambda>y. r_order_id y = k) (xs @ [x]) = Some r"
        by (simp add: find_snoc r)
      moreover have "v = expected_view parse pf (xs @ [x]) r"
        using rk by (auto simp: v v1 expected_view_snoc)
      ultimately show ?thesis by blast
    qed
    with d0 k0 True keys show ?thesis
      by auto
  next
    case False
    with step have m: "m = m0 @ [(?i, expected_view parse pf [x] x)]"
      by (simp add: group_row_new del: set_map)
    from False k0 have fresh: "?i \<notin> r_order_id ` set xs" by simp
    have "\<exists>r. find (\<lambda>y. r_order_id y = k) (xs @ [x]) = Some r
              \<and> v = expected_view parse pf (xs @ [x]) r"
      if kv: "(k, v) \<in> set m" for k v
    proof (cases "(k, v) \<in> set m0")
      case True
      from v0 True obtain r where r: "find (\<lambda>y. r_order_id y = k) xs = Some r"
        and v: "v = expected_view parse pf xs r"
        by blast
      from find_holds [OF r] have rk: "r_order_id r = k" "r \<in> set xs" by simp_all
      with fresh have "?i \<noteq> r_order_id r" by auto
      then have "v = expected_view parse pf (xs @ [x]) r"
        by (simp add: v expected_view_snoc)
      moreover have "find (\<lambda>y. r_order_id y = k) (xs @ [x]) = Some r"
        by (simp add: find_snoc r)
      ultimately show ?thesis by blast
    next
      case False
      with kv have k: "k = ?i" and v: "v = expected_view parse pf [x] x"
        unfolding m by auto
      from fresh have "find (\<lambda>y. r_order_id y = ?i) xs = None"
        by (auto simp: find_None_iff dest: fresh_key)
      then have "find (\<lambda>y. r_order_id y = k) (xs @ [x]) = Some x"
        by (simp add: find_snoc k)
      moreover have "v = expected_view parse pf (xs @ [x]) x"
        using fresh by (simp add: v expected_view_fresh)
      ultimately show ?thesis by blast
    qed
    with d0 k0 False show ?thesis
      unfolding m by auto
  qed
qed


lemma group_rows_log:
  "foldl (group_row parse pf) ([], out0) rows = (m, out) \<Longrightarrow>
   set out0 \<subseteq> set out
   \<and> (\<forall>r s. find (\<lambda>x. r_order_id x = r_order_id r) rows = Some r
          \<and> r_shipping_address r = Text s \<and> parse s = None
          \<longrightarrow> (parse_failure_label (r_order_id r), s) \<in> set out)"
proof (induction rows arbitrary: m out rule: rev_induct)
  case Nil
  then show ?case by simp
next
  case (snoc x xs)
  obtain m0 o0 where f0: "foldl (group_row parse pf) ([], out0) xs = (m0, o0)"
    by (cases "foldl (group_row parse pf) ([], out0) xs")
  from snoc.IH [OF f0]
  have s0: "set out0 \<subseteq> set o0"
    and l0: "\<And>r s. find (\<lambda>x. r_order_id x = r_order_id r) xs = Some r \<Longrightarrow>
                r_shipping_address r = Text s \<Longrightarrow> parse s = None \<Longrightarrow>
                (parse_failure_label (r_order_id r), s) \<in> set o0"
    by simp_all
  from group_rows_views [OF f0] have k0: "set (map fst m0) = r_order_id ` set xs"
    by simp
  from snoc.prems f0 have step: "group_row parse pf (m0, o0) x = (m, out)"
    by simp
  have grow: "set o0 \<subseteq> set out"
    using step
    by (cases "r_order_id x \<in> set (map fst m0)")
       (auto simp: group_row_seen group_row_new parse_address_log
             simp del: set_map split: column.splits option.splits)
  have "(parse_failure_label (r_order_id r), s) \<in> set out"
    if r: "find (\<lambda>y. r_order_id y = r_order_id r) (xs @ [x]) = Some r"
      and t: "r_shipping_address r = Text s" and p: "parse s = None" for r s
  proof (cases "find (\<lambda>y. r_order_id y = r_order_id r) xs")
    case (Some r')
    with r have "r' = r" by (simp add: find_snoc)
    with Some l0 [OF _ t p] grow show ?thesis by auto
  next
    case None
    with r have rx: "r = x" by (simp add: find_snoc split: if_splits)
    from None have "r_order_id r \<notin> r_order_id ` set xs"
      by (auto simp: find_None_iff)
    with rx k0 have new: "r_order_id x \<notin> set (map fst m0)" by simp
    from step new have "out = snd (parse_address parse x o0)"
      by (simp add: group_row_new del: set_map)
    with rx t p show ?thesis
      by (simp add: parse_address_log)
  qed
  with s0 grow show ?case by blast
qed

lemma push_line_dates:
  "map (\<lambda>e. v_order_date (snd e))
     (map (\<lambda>(k, v). if k = i then (k, v\<lparr>v_items := f v\<rparr>) else (k, v)) m)
   = map (\<lambda>e. v_order_date (snd e)) m"
  by (induction m) auto

lemma group_rows_sorted:
  "foldl (group_row parse pf) ([], out0) rows = (m, out) \<Longrightarrow>
   sorted_wrt (\<lambda>a b. r_order_date b \<le> r_order_date a) rows \<Longrightarrow>
   sorted_wrt (\<lambda>a b. b \<le> a) (map (\<lambda>e. v_order_date (snd e)) m)"
proof (induction rows arbitrary: m out rule: rev_induct)
  case Nil
  then show ?case by simp
next
  case (snoc x xs)
  obtain m0 o0 where f0: "foldl (group_row parse pf) ([], out0) xs = (m0, o0)"
    by (cases "foldl (group_row parse pf) ([], out0) xs")
  from snoc.prems(2) have sx: "sorted_wrt (\<lambda>a b. r_order_date b \<le> r_order_date a) xs"
    and last: "\<And>r. r \<in> set xs \<Longrightarrow> r_order_date x \<le> r_order_date r"
    by (simp_all add: sorted_wrt_append)
  from snoc.IH [OF f0 sx]
  have s0: "sorted_wrt (\<lambda>a b. b \<le> a) (map (\<lambda>e. v_order_date (snd e)) m0)" .
  from group_rows_views [OF f0]
  have v0: "\<forall>(k, v) \<in> set m0. \<exists>r. find (\<lambda>x. r_order_id x = k) xs = Some r
                \<and> v = expected_view parse pf xs r"
    by simp
  from snoc.prems(1) f0 have step: "group_row parse pf (m0, o0) x = (m, out)"
    by simp
  show ?case
  proof (cases "r_order_id x \<in> set (map fst m0)")
    case True
    with step have m: "m = map (\<lambda>(k, v). if k = r_order_id x
                      then (k, v\<lparr>v_items := v_items v @ [line_of pf x]\<rparr>) else (k, v)) m0"
      by (simp add: group_row_seen del: set_map)
    have "map (\<lambda>e. v_order_date (snd e)) m = map (\<lambda>e. v_order_date (snd e)) m0"
      unfolding m by (rule push_line_dates)
    with s0 show ?thesis by simp
  next
    case False
    with step have m: "m = m0 @ [(r_order_id x, expected_view parse pf [x] x)]"
      by (simp add: group_row_new del: set_map)
    have "r_order_date x \<le> v_order_date v" if "(k, v) \<in> set m0" for k v
    proof -
      from v0 that obtain r where r: "find (\<lambda>y. r_order_id y = k) xs = Some r"
        and v: "v = expected_view parse pf xs r"
        by blast
      from find_holds [OF r] last have "r_order_date x \<le> r_order_date r" by simp
      then show ?thesis by (simp add: v expected_view_def)
    qed
    then show ?thesis
      using s0 by (auto simp: m sorted_wrt_append expected_view_def)
  qed
qed

lemma group_rows_grouped:
  assumes "foldl (group_row parse pf) ([], out0) rows = (m, out)"
      and "sorted_wrt (\<lambda>a b. r_order_date b \<le> r_order_date a) rows"
  shows "grouped_history parse pf rows (map snd m) out"
    and "set (map v_order_id (map snd m)) = r_order_id ` set rows"
proof -
  note v = group_rows_views [OF assms(1)]
  have ids: "map v_order_id (map snd m) = map fst m"
  proof -
    have "v_order_id (snd e) = fst e" if "e \<in> set m" for e
    proof -
      obtain k v1 where e: "e = (k, v1)" by (cases e)
      with v that obtain r where r: "find (\<lambda>x. r_order_id x = k) rows = Some r"
        and v1: "v1 = expected_view parse pf rows r"
        by blast
      from find_holds [OF r] show ?thesis
        by (simp add: e v1 expected_view_def)
    qed
    then show ?thesis by simp
  qed
  show keys: "set (map v_order_id (map snd m)) = r_order_id ` set rows"
    using v by (simp only: ids)
  have 1: "distinct (map v_order_id (map snd m))"
    using v by (simp only: ids)
  have 3: "\<forall>v1 \<in> set (map snd m).
            case find (\<lambda>x. r_order_id x = v_order_id v1) rows of
              Some r \<Rightarrow> v1 = expected_view parse pf rows r
            | None \<Rightarrow> False"
  proof
    fix v1 assume "v1 \<in> set (map snd m)"
    then obtain k where "(k, v1) \<in> set m" by auto
    with v obtain r where r: "find (\<lambda>x. r_order_id x = k) rows = Some r"
      and v1: "v1 = expected_view parse pf rows r"
      by blast
    from find_holds [OF r] have "v_order_id v1 = k"
      by (simp add: v1 expected_view_def)
    with r v1 show "case find (\<lambda>x. r_order_id x = v_order_id v1) rows of
              Some r \<Rightarrow> v1 = expected_view parse pf rows r
            | None \<Rightarrow> False"
      by simp
  qed
  have "sorted_wrt (\<lambda>a b. b \<le> a) (map (\<lambda>e. v_order_date (snd e)) m)"
    using assms by (rule group_rows_sorted)
  then have 4: "sorted_wrt (\<lambda>a b. v_order_date b \<le> v_order_date a) (map snd m)"
    by (simp add: sorted_wrt_map)
  have 5: "\<forall>r \<in> set rows.
            find (\<lambda>x. r_order_id x = r_order_id r) rows = Some r \<longrightarrow>
            (case r_shipping_address r of
               Text s \<Rightarrow>
                 (case parse s of
                    None \<Rightarrow> (parse_failure_label (r_order_id r), s) \<in> set out
                  | Some a \<Rightarrow> True)
             | Object a \<Rightarrow> True)"
    using group_rows_log [OF assms(1)]
    by (auto split: column.splits option.splits)
  show "grouped_history parse pf rows (map snd m) out"
    unfolding grouped_history_def using 1 keys 3 4 5 by simp
qed

lemma sort_key_desc:
  "sorted_wrt (\<lambda>a b. r_order_date b \<le> r_order_date a) (sort_key (\<lambda>r. - r_order_date r) xs)"
proof -
  have "sorted (map (\<lambda>r. - r_order_date r) (sort_key (\<lambda>r. - r_order_date r) xs))"
    by (rule sorted_sort_key)
  then show ?thesis
    by (simp add: sorted_map)
qed

lemma getUserOrders_run:
  assumes "faults w = []"
  shows "getUserOrders parse pf u w =
           (case foldl (group_row parse pf) ([], console w) (fst (user_orders_sql u (committed w))) of
              (m, out) \<Rightarrow> (Response 200 (History (map snd m)), w\<lparr>console := out\<rparr>))"
proof -
  have "apply_change Pool (\<lambda>t. snd (user_orders_sql u t)) w = w"
    by (simp add: apply_change_def user_orders_sql_def)
  then show ?thesis
    using assms by (simp add: getUserOrders_def query_no_faults view_def)
qed

lemma getAllOrders_run:
  assumes "faults w = []"
  shows "getAllOrders parse pf w =
           (case foldl (group_row parse pf) ([], console w) (fst (all_orders_sql (committed w))) of
              (m, out) \<Rightarrow> (Response 200 (History (map snd m)), w\<lparr>console := out\<rparr>))"
proof -
  have "apply_change Pool (\<lambda>t. snd (all_orders_sql t)) w = w"
    by (simp add: apply_change_def all_orders_sql_def)
  then show ?thesis
    using assms by (simp add: getAllOrders_def query_no_faults view_def)
qed

lemma user_rows_sorted:
  "sorted_wrt (\<lambda>a b. r_order_date b \<le> r_order_date a) (fst (user_orders_sql u t))"
  by (simp add: user_orders_sql_def sort_key_desc)

lemma all_rows_sorted:
  "sorted_wrt (\<lambda>a b. r_order_date b \<le> r_order_date a) (fst (all_orders_sql t))"
  by (simp add: all_orders_sql_def sort_key_desc)

lemma user_rows_ids:
  "r_order_id ` set (fst (user_orders_sql u t))
     = o_id ` {o_row \<in> set (orders t). o_user_id o_row = u \<and> has_listed_line t o_row}"
proof (intro set_eqI iffI)
  fix i
  assume "i \<in> r_order_id ` set (fst (user_orders_sql u t))"
  then obtain o_row oi p where i: "i = o_id o_row" and "o_row \<in> set (orders t)"
    "o_user_id o_row = u" "oi \<in> set (order_items t)" "o_id o_row = oi_order_id oi"
    "p \<in> set (products t)" "oi_product_id oi = p_id p"
    by (auto simp: user_orders_sql_def joined_row_def split: if_splits)
  then have "o_row \<in> {o_row \<in> set (orders t). o_user_id o_row = u \<and> has_listed_line t o_row}"
    unfolding has_listed_line_def by simp metis
  then show "i \<in> o_id ` {o_row \<in> set (orders t). o_user_id o_row = u \<and> has_listed_line t o_row}"
    unfolding i by (rule imageI)
next
  fix i
  assume "i \<in> o_id ` {o_row \<in> set (orders t). o_user_id o_row = u \<and> has_listed_line t o_row}"
  then obtain o_row oi p where "o_row \<in> set (orders t)" "o_user_id o_row = u" "o_id o_row = i"
    "oi \<in> set (order_items t)" "oi_order_id oi = o_id o_row"
    "p \<in> set (products t)" "p_id p = oi_product_id oi"
    by (auto simp: has_listed_line_def)
  then have "joined_row o_row oi p () \<in> set (fst (user_orders_sql u t))"
    by (force simp: user_orders_sql_def)
  moreover have "r_order_id (joined_row o_row oi p ()) = i"
    using \<open>o_id o_row = i\<close> by (simp add: joined_row_def)
  ultimately show "i \<in> r_order_id ` set (fst (user_orders_sql u t))"
    by (metis imageI)
qed

lemma all_rows_ids:
  "r_order_id ` set (fst (all_orders_sql t))
     = o_id ` {o_row \<in> set (orders t).
                (\<exists>usr \<in> set (users t). u_id usr = o_user_id o_row) \<and> has_listed_line t o_row}"
proof (intro set_eqI iffI)
  fix i
  assume "i \<in> r_order_id ` set (fst (all_orders_sql t))"
  then obtain o_row usr oi p where i: "i = o_id o_row" and "o_row \<in> set (orders t)"
    "usr \<in> set (users t)" "o_user_id o_row = u_id usr"
    "oi \<in> set (order_items t)" "o_id o_row = oi_order_id oi"
    "p \<in> set (products t)" "oi_product_id oi = p_id p"
    by (auto simp: all_orders_sql_def joined_row_def split: if_splits)
  then have "o_row \<in> {o_row \<in> set (orders t).
                (\<exists>usr \<in> set (users t). u_id usr = o_user_id o_row) \<and> has_listed_line t o_row}"
    unfolding has_listed_line_def by simp metis
  then show "i \<in> o_id ` {o_row \<in> set (orders t).
                (\<exists>usr \<in> set (users t). u_id usr = o_user_id o_row) \<and> has_listed_line t o_row}"
    unfolding i by (rule imageI)
next
  fix i
  assume "i \<in> o_id ` {o_row \<in> set (orders t).
                (\<exists>usr \<in> set (users t). u_id usr = o_user_id o_row) \<and> has_listed_line t o_row}"
  then obtain o_row usr oi p where "o_row \<in> set (orders t)" "o_id o_row = i"
    "usr \<in> set (users t)" "u_id usr = o_user_id o_row"
    "oi \<in> set (order_items t)" "oi_order_id oi = o_id o_row"
    "p \<in> set (products t)" "p_id p = oi_product_id oi"
    by (auto simp: has_listed_line_def)
  then have "joined_row o_row oi p (u_username usr, u_email usr) \<in> set (fst (all_orders_sql t))"
    by (force simp: all_orders_sql_def)
  moreover have "r_order_id (joined_row o_row oi p (u_username usr, u_email usr)) = i"
    using \<open>o_id o_row = i\<close> by (simp add: joined_row_def)
  ultimately show "i \<in> r_order_id ` set (fst (all_orders_sql t))"
    by (metis imageI)
qed

lemmas history_defs = getUserOrders_def getAllOrders_def query_def driver_call_def view_def
  apply_change_def user_orders_sql_def all_orders_sql_def joined_row_def group_row_def
  parse_address_def line_of_def parse_failure_label_def string_of_int_def digit_char_def
  shop_history_def shop_history_tables_def shop_def shop_tables_def shop_parse_def
  shop_parseFloat_def sort_key_def

text \<open>
  C9. When the server executes the query, each reader answers 200 with the views grouped
  from the joined rows: one view per order id, each with the header of the order's first
  row and a line for every row of the order; the views by order date, latest first; and
  where an order's stored address is a text that \<open>JSON.parse\<close> rejects, the view's
  address is \<open>null\<close> and the anomaly is on the console, the response being the 200 with
  every view all the same.
\<close>

theorem order_history_grouping:
  assumes "faults w = []"
  shows "(\<exists>views w1. getUserOrders parse pf u w = (Response 200 (History views), w1)
            \<and> grouped_history parse pf (fst (user_orders_sql u (committed w))) views (console w1))
       \<and> (\<exists>views w1. getAllOrders parse pf w = (Response 200 (History views), w1)
            \<and> grouped_history parse pf (fst (all_orders_sql (committed w))) views (console w1))"
proof (intro conjI)
  obtain m out where f: "foldl (group_row parse pf) ([], console w)
                           (fst (user_orders_sql u (committed w))) = (m, out)"
    by (cases "foldl (group_row parse pf) ([], console w) (fst (user_orders_sql u (committed w)))")
  from group_rows_grouped(1) [OF f user_rows_sorted]
  show "\<exists>views w1. getUserOrders parse pf u w = (Response 200 (History views), w1)
            \<and> grouped_history parse pf (fst (user_orders_sql u (committed w))) views (console w1)"
    by (simp add: getUserOrders_run [OF assms] f)
next
  obtain m out where f: "foldl (group_row parse pf) ([], console w)
                           (fst (all_orders_sql (committed w))) = (m, out)"
    by (cases "foldl (group_row parse pf) ([], console w) (fst (all_orders_sql (committed w)))")
  from group_rows_grouped(1) [OF f all_rows_sorted]
  show "\<exists>views w1. getAllOrders parse pf w = (Response 200 (History views), w1)
            \<and> grouped_history parse pf (fst (all_orders_sql (committed w))) views (console w1)"
    by (simp add: getAllOrders_run [OF assms] f)
qed

theorem order_history_grouping_witness:
  "fst (getUserOrders shop_parse shop_parseFloat 1 shop_history)
     = Response 200 (History
         [\<lparr>v_order_id = 3, v_order_date = 2000, v_total_amount = 25000,
           v_status = ''pending'', v_shipping_address = JObj [], v_customer = (),
           v_items = [\<lparr>l_product_name = ''P1'', l_quantity = 1, l_item_price = 25000,
                       l_image_url = None\<rparr>]\<rparr>,
          \<lparr>v_order_id = 1, v_order_date = 1000, v_total_amount = 84900,
           v_status = ''shipped'', v_shipping_address = JNull, v_customer = (),
           v_items = [\<lparr>l_product_name = ''P1'', l_quantity = 3, l_item_price = 25000,
                       l_image_url = None\<rparr>,
                      \<lparr>l_product_name = ''P2'', l_quantity = 1, l_item_price = 9900,
                       l_image_url = Some ''p2.png''\<rparr>]\<rparr>])
   \<and> console (snd (getUserOrders shop_parse shop_parseFloat 1 shop_history))
     = [(''Could not parse shipping address for order ID 1:'', ''{city'')]
   \<and> (\<exists>views. fst (getUserOrders shop_parse shop_parseFloat 1 shop_history)
                  = Response 200 (History views)
        \<and> grouped_history shop_parse shop_parseFloat
             (fst (user_orders_sql 1 (committed shop_history))) views
             (console (snd (getUserOrders shop_parse shop_parseFloat 1 shop_history))))
   \<and> fst (getAllOrders shop_parse shop_parseFloat shop_history)
     = Response 200 (History
         [\<lparr>v_order_id = 3, v_order_date = 2000, v_total_amount = 25000,
           v_status = ''pending'', v_shipping_address = JObj [],
           v_customer = (''asha'', ''asha@example.org''),
           v_items = [\<lparr>l_product_name = ''P1'', l_quantity = 1, l_item_price = 25000,
                       l_image_url = None\<rparr>]\<rparr>,
          \<lparr>v_order_id = 1, v_order_date = 1000, v_total_amount = 84900,
           v_status = ''shipped'', v_shipping_address = JNull,
           v_customer = (''asha'', ''asha@example.org''),
           v_items = [\<lparr>l_product_name = ''P1'', l_quantity = 3, l_item_price = 25000,
                       l_image_url = None\<rparr>,
                      \<lparr>l_product_name = ''P2'', l_quantity = 1, l_item_price = 9900,
                       l_image_url = Some ''p2.png''\<rparr>]\<rparr>])
   \<and> console (snd (getAllOrders shop_parse shop_parseFloat shop_history))
     = [(''Could not parse shipping address for order ID 1:'', ''{city'')]
   \<and> (\<exists>views. fst (getAllOrders shop_parse shop_parseFloat shop_history)
                  = Response 200 (History views)
        \<and> grouped_history shop_parse shop_parseFloat
             (fst (all_orders_sql (committed shop_history))) views
             (console (snd (getAllOrders shop_parse shop_parseFloat shop_history))))"
proof -
  have f: "faults shop_history = []"
    by (simp add: shop_history_def shop_def)
  from conjunct2 [OF order_history_grouping [OF f, of shop_parse shop_parseFloat 1]]
  obtain all_views w2
    where b: "getAllOrders shop_parse shop_parseFloat shop_history
                = (Response 200 (History all_views), w2)"
      and h: "grouped_history shop_parse shop_parseFloat
                (fst (all_orders_sql (committed shop_history))) all_views (console w2)"
    by (elim exE conjE)
  have admin: "\<exists>views. fst (getAllOrders shop_parse shop_parseFloat shop_history)
                  = Response 200 (History views)
        \<and> grouped_history shop_parse shop_parseFloat
             (fst (all_orders_sql (committed shop_history))) views
             (console (snd (getAllOrders shop_parse shop_parseFloat shop_history)))"
    using h by (intro exI [of _ all_views]) (simp add: b)
  have admin_run: "fst (getAllOrders shop_parse shop_parseFloat shop_history)
     = Response 200 (History
         [\<lparr>v_order_id = 3, v_order_date = 2000, v_total_amount = 25000,
           v_status = ''pending'', v_shipping_address = JObj [],
           v_customer = (''asha'', ''asha@example.org''),
           v_items = [\<lparr>l_product_name = ''P1'', l_quantity = 1, l_item_price = 25000,
                       l_image_url = None\<rparr>]\<rparr>,
          \<lparr>v_order_id = 1, v_order_date = 1000, v_total_amount = 84900,
           v_status = ''shipped'', v_shipping_address = JNull,
           v_customer = (''asha'', ''asha@example.org''),
           v_items = [\<lparr>l_product_name = ''P1'', l_quantity = 3, l_item_price = 25000,
                       l_image_url = None\<rparr>,
                      \<lparr>l_product_name = ''P2'', l_quantity = 1, l_item_price = 9900,
                       l_image_url = Some ''p2.png''\<rparr>]\<rparr>])"
    by (simp add: history_defs string_of_nat.simps)
  have admin_log: "console (snd (getAllOrders shop_parse shop_parseFloat shop_history))
     = [(''Could not parse shipping address for order ID 1:'', ''{city'')]"
    by (simp add: history_defs string_of_nat.simps)
  from conjunct1 [OF order_history_grouping [OF f, of shop_parse shop_parseFloat 1]]
  obtain views w1
    where a: "getUserOrders shop_parse shop_parseFloat 1 shop_history
                = (Response 200 (History views), w1)"
      and g: "grouped_history shop_parse shop_parseFloat
                (fst (user_orders_sql 1 (committed shop_history))) views (console w1)"
    by (elim exE conjE)
  have "\<exists>views. fst (getUserOrders shop_parse shop_parseFloat 1 shop_history)
                  = Response 200 (History views)
        \<and> grouped_history shop_parse shop_parseFloat
             (fst (user_orders_sql 1 (committed shop_history))) views
             (console (snd (getUserOrders shop_parse shop_parseFloat 1 shop_history)))"
    using g by (intro exI [of _ views]) (simp add: a)
  moreover have "fst (getUserOrders shop_parse shop_parseFloat 1 shop_history)
     = Response 200 (History
         [\<lparr>v_order_id = 3, v_order_date = 2000, v_total_amount = 25000,
           v_status = ''pending'', v_shipping_address = JObj [], v_customer = (),
           v_items = [\<lparr>l_product_name = ''P1'', l_quantity = 1, l_item_price = 25000,
                       l_image_url = None\<rparr>]\<rparr>,
          \<lparr>v_order_id = 1, v_order_date = 1000, v_total_amount = 84900,
           v_status = ''shipped'', v_shipping_address = JNull, v_customer = (),
           v_items = [\<lparr>l_product_name = ''P1'', l_quantity = 3, l_item_price = 25000,
                       l_image_url = None\<rparr>,
                      \<lparr>l_product_name = ''P2'', l_quantity = 1, l_item_price = 9900,
                       l_image_url = Some ''p2.png''\<rparr>]\<rparr>])"
    by (simp add: history_defs string_of_nat.simps)
  moreover have "console (snd (getUserOrders shop_parse shop_parseFloat 1 shop_history))
     = [(''Could not parse shipping address for order ID 1:'', ''{city'')]"
    by (simp add: history_defs string_of_nat.simps)
  ultimately show ?thesis using admin_run admin_log admin by (intro conjI)
qed

text \<open>
  C10. When the server executes the query, the order ids in the user's history are
  exactly the ids of the user's orders that have a line whose product is still in the
  catalogue, and those in the admin's history the ids of such orders whose user exists:
  an order left with no line is not in the history at all.
\<close>

theorem history_lists_orders_with_lines:
  assumes "faults w = []"
  shows "(\<exists>views w1. getUserOrders parse pf u w = (Response 200 (History views), w1)
            \<and> v_order_id ` set views
                = o_id ` {o_row \<in> set (orders (committed w)).
                           o_user_id o_row = u \<and> has_listed_line (committed w) o_row})
       \<and> (\<exists>views w1. getAllOrders parse pf w = (Response 200 (History views), w1)
            \<and> v_order_id ` set views
                = o_id ` {o_row \<in> set (orders (committed w)).
                           (\<exists>usr \<in> set (users (committed w)). u_id usr = o_user_id o_row)
                           \<and> has_listed_line (committed w) o_row})"
proof (intro conjI)
  obtain m out where f: "foldl (group_row parse pf) ([], console w)
                           (fst (user_orders_sql u (committed w))) = (m, out)"
    by (cases "foldl (group_row parse pf) ([], console w) (fst (user_orders_sql u (committed w)))")
  from group_rows_grouped(2) [OF f user_rows_sorted]
  have "v_order_id ` set (map snd m) = r_order_id ` set (fst (user_orders_sql u (committed w)))"
    by (simp add: image_image)
  then show "\<exists>views w1. getUserOrders parse pf u w = (Response 200 (History views), w1)
            \<and> v_order_id ` set views
                = o_id ` {o_row \<in> set (orders (committed w)).
                           o_user_id o_row = u \<and> has_listed_line (committed w) o_row}"
    by (simp add: getUserOrders_run [OF assms] f user_rows_ids del: set_map)
next
  obtain m out where f: "foldl (group_row parse pf) ([], console w)
                           (fst (all_orders_sql (committed w))) = (m, out)"
    by (cases "foldl (group_row parse pf) ([], console w) (fst (all_orders_sql (committed w)))")
  from group_rows_grouped(2) [OF f all_rows_sorted]
  have "v_order_id ` set (map snd m) = r_order_id ` set (fst (all_orders_sql (committed w)))"
    by (simp add: image_image)
  then show "\<exists>views w1. getAllOrders parse pf w = (Response 200 (History views), w1)
            \<and> v_order_id ` set views
                = o_id ` {o_row \<in> set (orders (committed w)).
                           (\<exists>usr \<in> set (users (committed w)). u_id usr = o_user_id o_row)
                           \<and> has_listed_line (committed w) o_row}"
    by (simp add: getAllOrders_run [OF assms] f all_rows_ids del: set_map)
qed

theorem history_lists_orders_with_lines_witness:
  "map o_id (orders (committed shop_history)) = [1, 2, 3]
   \<and> \<not> has_listed_line (committed shop_history) (orders (committed shop_history) ! 1)
   \<and> (\<exists>views. fst (getAllOrders shop_parse shop_parseFloat shop_history)
                  = Response 200 (History views)
        \<and> map v_order_id views = [3, 1]
        \<and> v_order_id ` set views
            = o_id ` {o_row \<in> set (orders (committed shop_history)).
                       (\<exists>usr \<in> set (users (committed shop_history)). u_id usr = o_user_id o_row)
                       \<and> has_listed_line (committed shop_history) o_row})"
proof -
  have f: "faults shop_history = []"
    by (simp add: shop_history_def shop_def)
  from conjunct2 [OF history_lists_orders_with_lines [OF f, of shop_parse shop_parseFloat 1]]
  obtain views w1
    where a: "getAllOrders shop_parse shop_parseFloat shop_history
                = (Response 200 (History views), w1)"
      and g: "v_order_id ` set views
            = o_id ` {o_row \<in> set (orders (committed shop_history)).
                       (\<exists>usr \<in> set (users (committed shop_history)). u_id usr = o_user_id o_row)
                       \<and> has_listed_line (committed shop_history) o_row}"
    by (elim exE conjE)
  have "map v_order_id
          (case fst (getAllOrders shop_parse shop_parseFloat shop_history) of
             Response code (History vs) \<Rightarrow> vs) = [3, 1]"
    by (simp add: history_defs string_of_nat.simps)
  then have m: "map v_order_id views = [3, 1]"
    by (simp add: a)
  have 1: "map o_id (orders (committed shop_history)) = [1, 2, 3]"
    by (simp add: shop_history_def shop_history_tables_def)
  have 2: "\<not> has_listed_line (committed shop_history) (orders (committed shop_history) ! 1)"
    by (simp add: has_listed_line_def shop_history_def shop_history_tables_def shop_tables_def)
  from a g m have "\<exists>views. fst (getAllOrders shop_parse shop_parseFloat shop_history)
                  = Response 200 (History views)
        \<and> map v_order_id views = [3, 1]
        \<and> v_order_id ` set views
            = o_id ` {o_row \<in> set (orders (committed shop_history)).
                       (\<exists>usr \<in> set (users (committed shop_history)). u_id usr = o_user_id o_row)
                       \<and> has_listed_line (committed shop_history) o_row}"
    by (intro exI [of _ views] conjI) simp_all
  with 1 2 show ?thesis by (intro conjI)
qed

end
